theory Spec2Isabelle
  imports Complex_Main "HOL-Library.Log_Nat"
begin

section \<open>Tables and the table registry\<close>

text \<open>
  A pandas frame is a list of rows, in row order; the row index is a field of the row.
  Identifiers are integers. The columns a function does not read are carried in one
  polymorphic field, so that "the full row" is preserved by every operation that copies
  or filters rows.
\<close>

record 'a building =
  building_index :: int
  parcel_id :: int
  building_cols :: 'a

record 'b agent =
  agent_index :: int
  building_id :: int
  agent_cols :: 'b

text \<open>
  The registry \<open>orca.orca._TABLES\<close>, as far as \<open>_remove_developed_buildings\<close> touches it:
  the entry \<open>"dropped_buildings"\<close> (absent until the first call) and the registered agent
  tables, looked up by name.
\<close>

record ('a, 'b) orca_tables =
  dropped_buildings :: "'a building list option"
  agent_tables :: "string \<rightharpoonup> 'b agent list"

datatype error =
    KeyError string
  | IndexError
  | ValueError
  | AssertionError
  | NotImplementedError

subsection \<open>pandas and numpy primitives\<close>

text \<open>\<open>Series.isin(values)\<close>: the element-wise membership mask.\<close>

definition isin :: "int list \<Rightarrow> int list \<Rightarrow> bool list" where
  "isin s vals = map (\<lambda>x. x \<in> set vals) s"

text \<open>\<open>df[mask]\<close> for a boolean mask aligned with the rows of \<open>df\<close>.\<close>

definition mask_select :: "'r list \<Rightarrow> bool list \<Rightarrow> 'r list" where
  "mask_select df bmask = map fst (filter snd (zip df bmask))"

definition logical_not :: "bool list \<Rightarrow> bool list" where
  "logical_not bmask = map Not bmask"

text \<open>
  \<open>agents.building_id[mask] = -1\<close> assigns into the series that the attribute access
  \<open>agents.building_id\<close> returns, not into the frame. Without copy-on-write (pandas before
  3.0, as shipped) that series shares the frame's data and the frame changes with it; with
  copy-on-write (pandas from 3.0 on) the series is written as a copy and the frame stays
  as it was. \<open>copy_on_write\<close> is the mode of the pandas in use.
\<close>

definition set_building_id_where :: "bool \<Rightarrow> 'b agent list \<Rightarrow> bool list \<Rightarrow> 'b agent list" where
  "set_building_id_where copy_on_write agents bmask =
     (if copy_on_write then agents
      else map (\<lambda>(a, m). if m then a\<lparr>building_id := - 1\<rparr> else a) (zip agents bmask))"

section \<open>Redevelopment: \<open>_remove_developed_buildings\<close>\<close>

text \<open>
  The loop \<open>for tbl in unplace_agents\<close>. \<open>orca.get_table\<close> raises \<open>KeyError\<close> for a name
  that is not registered; the tables already processed stay modified.
\<close>

fun unplace_loop ::
  "bool \<Rightarrow> int list \<Rightarrow> string list \<Rightarrow> (string \<rightharpoonup> 'b agent list)
     \<Rightarrow> (string \<rightharpoonup> 'b agent list) \<times> (error + unit)" where
  "unplace_loop copy_on_write drop_index [] T = (T, Inr ())"
| "unplace_loop copy_on_write drop_index (tbl # rest) T =
     (case T tbl of
        None \<Rightarrow> (T, Inl (KeyError tbl))
      | Some agents \<Rightarrow>
          (let displaced_agents = isin (map building_id agents) drop_index
           in unplace_loop copy_on_write drop_index rest
                (T(tbl \<mapsto> set_building_id_where copy_on_write agents displaced_agents))))"

definition remove_developed_buildings ::
  "bool \<Rightarrow> ('a, 'b) orca_tables \<Rightarrow> 'a building list \<Rightarrow> 'a building list \<Rightarrow> string list
     \<Rightarrow> ('a, 'b) orca_tables \<times> (error + 'a building list)" where
  "remove_developed_buildings copy_on_write st old_buildings new_buildings unplace_agents =
     (let redev_buildings = isin (map parcel_id old_buildings) (map parcel_id new_buildings);
          drop_buildings = mask_select old_buildings redev_buildings;
          st1 = st\<lparr>dropped_buildings :=
                  Some (case dropped_buildings st of
                          Some prev_drops \<Rightarrow> drop_buildings @ prev_drops
                        | None \<Rightarrow> drop_buildings)\<rparr>;
          old_buildings' = mask_select old_buildings (logical_not redev_buildings);
          (T, r) = unplace_loop copy_on_write (map building_index drop_buildings)
                     unplace_agents (agent_tables st1)
      in (st1\<lparr>agent_tables := T\<rparr>,
          case r of Inl e \<Rightarrow> Inl e | Inr u \<Rightarrow> Inr old_buildings'))"

text \<open>The rows of \<open>old\<close> standing on a parcel that \<open>new\<close> builds on, and their ids.\<close>

definition redeveloped :: "'a building list \<Rightarrow> 'a building list \<Rightarrow> 'a building list" where
  "redeveloped old new = filter (\<lambda>b. parcel_id b \<in> parcel_id ` set new) old"

definition removed_ids :: "'a building list \<Rightarrow> 'a building list \<Rightarrow> int set" where
  "removed_ids old new = building_index ` set (redeveloped old new)"

text \<open>
  What the assignment of the unplacing loop does to one agent table when it reaches the
  frame: the rows whose \<open>building_id\<close> is the id of a removed building get \<open>-1\<close>, every
  other row is left as it is.
\<close>

definition unplace_rows :: "int set \<Rightarrow> 'b agent list \<Rightarrow> 'b agent list" where
  "unplace_rows ids agents =
     map (\<lambda>a. if building_id a \<in> ids then a\<lparr>building_id := - 1\<rparr> else a) agents"

text \<open>
  A run of calls on the same registry (one per development step), and the rows that the
  registry's \<open>"dropped_buildings"\<close> entry records.
\<close>

fun redevelopment_calls ::
  "bool \<Rightarrow> ('a, 'b) orca_tables
     \<Rightarrow> ('a building list \<times> 'a building list \<times> string list) list
     \<Rightarrow> ('a, 'b) orca_tables" where
  "redevelopment_calls copy_on_write st [] = st"
| "redevelopment_calls copy_on_write st ((old, new, names) # calls) =
     redevelopment_calls copy_on_write
       (fst (remove_developed_buildings copy_on_write st old new names)) calls"

definition recorded_drops :: "('a, 'b) orca_tables \<Rightarrow> 'a building list" where
  "recorded_drops st = (case dropped_buildings st of None \<Rightarrow> [] | Some rows \<Rightarrow> rows)"

section \<open>Location choice: \<open>lcm_simulate\<close>\<close>

text \<open>
  The rows of the table of choosers (\<open>out_col\<close> is the column \<open>out_fname\<close>, with \<open>-1\<close> for an
  unplaced agent) and of a table of locations: \<open>vacant_col\<close>, \<open>supply_col\<close>, \<open>price_col\<close> and
  \<open>submarket_col\<close> are the columns named by \<open>vacant_fname\<close>, \<open>supply_fname\<close> and by
  \<open>enable_supply_correction\<close>. Prices are exact rationals. The same row type, with other
  further columns, is used for the frame \<open>locations_df\<close> that \<open>to_frame\<close> joins from the
  buildings.
\<close>

record 'c chooser =
  chooser_index :: int
  out_col :: int
  move_in_year_col :: int
  chooser_cols :: 'c

record 'l location =
  location_index :: int
  supply_col :: int
  vacant_col :: int
  price_col :: rat
  submarket_col :: int
  location_cols :: 'l

text \<open>
  The dictionary \<open>enable_supply_correction\<close>: which of the keys \<open>"price_col"\<close> and
  \<open>"submarket_col"\<close> it has, whether \<open>"warm_start"\<close> is \<open>True\<close>, the index of the table named
  by \<open>"submarket_table"\<close> when that key is set, and the two clip bounds when present. The
  keys \<open>"multiplier_func"\<close> and \<open>"kwargs"\<close> are only handed on to \<open>supply_and_demand\<close>.
\<close>

record supply_correction =
  has_price_col :: bool
  has_submarket_col :: bool
  warm_start :: bool
  submarket_table :: "int list option"
  clip_final_price_low :: "rat option"
  clip_final_price_high :: "rat option"

text \<open>
  What a completed call leaves behind: the printed diagnostics, the two frames handed to
  \<open>predict_from_cfg\<close>, the column \<open>price_col + "_hedonic"\<close> and the printed adjusted prices
  (both only with supply correction), and the two tables after the write-back.
\<close>

record ('c, 'l, 'm) lcm_result =
  overfull_reported :: nat
  missing_reported :: nat
  movers_reported :: nat
  choice_movers :: "'c chooser list"
  choice_units :: "'m location list"
  price_hedonic :: "rat list option"
  adjusted_prices :: "rat list option"
  choosers_after :: "'c chooser list"
  buildings_after :: "'l location list"

text \<open>\<open>np.repeat(values, counts)\<close>; the counts are positive where it is called.\<close>

definition np_repeat :: "'a list \<Rightarrow> int list \<Rightarrow> 'a list" where
  "np_repeat vals counts = concat (map (\<lambda>(x, c). replicate (nat c) x) (zip vals counts))"

text \<open>
  \<open>df.loc[labels]\<close> for a list of labels: for each label in turn, the rows with that index.
  Every label passed here has gone through \<open>isin(df.index)\<close>, so the \<open>KeyError\<close> of an
  unknown label cannot arise.
\<close>

definition loc_rows :: "'m location list \<Rightarrow> int list \<Rightarrow> 'm location list" where
  "loc_rows df labels = concat (map (\<lambda>i. filter (\<lambda>r. location_index r = i) df) labels)"

text \<open>The series \<open>buildings[vacant_fname]\<close>, as (index, value) pairs.\<close>

definition vacant_series :: "'l location list \<Rightarrow> (int \<times> int) list" where
  "vacant_series buildings = map (\<lambda>b. (location_index b, vacant_col b)) buildings"

text \<open>\<open>len(vacant_units[vacant_units < 0])\<close>, the printed number of overfull buildings.\<close>

definition overfull_count :: "(int \<times> int) list \<Rightarrow> nat" where
  "overfull_count vacant_units = length (filter (\<lambda>(i, v). v < 0) vacant_units)"

text \<open>\<open>vacant_units[vacant_units > 0]\<close>.\<close>

definition positive_vacant :: "(int \<times> int) list \<Rightarrow> (int \<times> int) list" where
  "positive_vacant vacant_units = filter (\<lambda>(i, v). v > 0) vacant_units"

text \<open>
  Lines 400 to 405: the repeated indexes, the mask of those found in \<open>locations_df\<close>, the
  number missing, and the frame \<open>units\<close> (its new index is the position in the list).
\<close>

definition repeated_indexes :: "(int \<times> int) list \<Rightarrow> int list" where
  "repeated_indexes vacant_units = np_repeat (map fst vacant_units) (map snd vacant_units)"

definition missing_count :: "(int \<times> int) list \<Rightarrow> 'm location list \<Rightarrow> nat" where
  "missing_count vacant_units locations_df =
     (let indexes = repeated_indexes vacant_units;
          found = isin indexes (map location_index locations_df)
      in length (filter Not found))"

definition candidate_units :: "(int \<times> int) list \<Rightarrow> 'm location list \<Rightarrow> 'm location list" where
  "candidate_units vacant_units locations_df =
     (let indexes = repeated_indexes vacant_units;
          found = isin indexes (map location_index locations_df);
          indexes = mask_select indexes found
      in loc_rows locations_df indexes)"

text \<open>
  \<open>submarkets_ratios.reindex(table.index).fillna(1)\<close>: the ratios on the index of the
  submarket table, \<open>1\<close> where \<open>supply_and_demand\<close> returned none.
\<close>

definition reindex_fill :: "(int \<rightharpoonup> rat) \<Rightarrow> int list \<Rightarrow> (int \<rightharpoonup> rat)" where
  "reindex_fill ratios idx =
     (\<lambda>s. if s \<in> set idx then Some (case ratios s of Some r \<Rightarrow> r | None \<Rightarrow> 1) else None)"

text \<open>
  \<open>buildings[price_col] * submarkets_ratios.loc[buildings[submarket_col]].values\<close>;
  \<open>.loc\<close> raises \<open>KeyError\<close> for a submarket without a ratio.
\<close>

fun shifted_prices :: "(int \<rightharpoonup> rat) \<Rightarrow> 'l location list \<Rightarrow> error + rat list" where
  "shifted_prices ratios [] = Inr []"
| "shifted_prices ratios (b # bs) =
     (case ratios (submarket_col b) of
        None \<Rightarrow> Inl (KeyError ''submarket'')
      | Some r \<Rightarrow>
          (case shifted_prices ratios bs of
             Inl e \<Rightarrow> Inl e
           | Inr ps \<Rightarrow> Inr (price_col b * r # ps)))"

text \<open>\<open>buildings.update_col_from_series(price_col, new_prices)\<close>, row by row.\<close>

definition update_prices :: "'l location list \<Rightarrow> rat list \<Rightarrow> 'l location list" where
  "update_prices buildings new_prices =
     map (\<lambda>(b, p). b\<lparr>price_col := p\<rparr>) (zip buildings new_prices)"

text \<open>
  The first \<open>if enable_supply_correction is not None\<close> block (lines 420 to 470), given
  the ratios that \<open>supply_and_demand\<close> returns for the movers and the units: the new
  buildings table, the saved hedonic prices and the adjusted prices.
\<close>

definition supply_correction_step ::
  "supply_correction \<Rightarrow> (int \<rightharpoonup> rat) \<Rightarrow> 'l location list
     \<Rightarrow> error + ('l location list \<times> rat list \<times> rat list)" where
  "supply_correction_step cfg sd_ratios buildings =
     (if \<not> has_price_col cfg then Inl AssertionError
      else if \<not> has_submarket_col cfg then Inl AssertionError
      else if warm_start cfg then Inl NotImplementedError
      else
        (let submarkets_ratios =
               (case submarket_table cfg of
                  None \<Rightarrow> sd_ratios
                | Some idx \<Rightarrow> reindex_fill sd_ratios idx)
         in case shifted_prices submarkets_ratios buildings of
              Inl e \<Rightarrow> Inl e
            | Inr new_prices \<Rightarrow>
                Inr (update_prices buildings new_prices, map price_col buildings, new_prices)))"

text \<open>\<open>Series.clip(lower=...)\<close> and \<open>Series.clip(upper=...)\<close> on one value.\<close>

definition clip_lower :: "rat \<Rightarrow> rat \<Rightarrow> rat" where
  "clip_lower lo p = (if p < lo then lo else p)"

definition clip_upper :: "rat \<Rightarrow> rat \<Rightarrow> rat" where
  "clip_upper hi p = (if p > hi then hi else p)"

text \<open>The last \<open>if enable_supply_correction is not None\<close> block (lines 500 to 508).\<close>

definition clip_final_prices :: "supply_correction \<Rightarrow> 'l location list \<Rightarrow> 'l location list" where
  "clip_final_prices cfg buildings =
     (let new_prices = map price_col buildings;
          new_prices = (case clip_final_price_low cfg of
                          Some lo \<Rightarrow> map (clip_lower lo) new_prices
                        | None \<Rightarrow> new_prices);
          new_prices = (case clip_final_price_high cfg of
                          Some hi \<Rightarrow> map (clip_upper hi) new_prices
                        | None \<Rightarrow> new_prices)
      in update_prices buildings new_prices)"

text \<open>
  Lines 472 to 475: the movers handed to the predictor. \<open>vacant_units\<close> is the series
  filtered to the positive values, and \<open>vacant_units.sum()\<close> its total.
\<close>

definition truncate_movers :: "'c chooser list \<Rightarrow> (int \<times> int) list \<Rightarrow> 'c chooser list" where
  "truncate_movers movers vacant_units =
     (if int (length movers) > sum_list (map snd vacant_units)
      then take (nat (sum_list (map snd vacant_units))) movers
      else movers)"

text \<open>
  \<open>choosers.update_col_from_series(col, series)\<close> for a series given as (index, value)
  pairs: the rows whose index is in the series take its value.
\<close>

definition update_out_col :: "'c chooser list \<Rightarrow> (int \<times> int) list \<Rightarrow> 'c chooser list" where
  "update_out_col choosers series =
     map (\<lambda>c. case map_of series (chooser_index c) of
                 Some v \<Rightarrow> c\<lparr>out_col := v\<rparr>
               | None \<Rightarrow> c) choosers"

definition update_move_in_year :: "'c chooser list \<Rightarrow> (int \<times> int) list \<Rightarrow> 'c chooser list" where
  "update_move_in_year choosers series =
     map (\<lambda>c. case map_of series (chooser_index c) of
                 Some v \<Rightarrow> c\<lparr>move_in_year_col := v\<rparr>
               | None \<Rightarrow> c) choosers"

text \<open>\<open>new_units.dropna()\<close>: the choosers that were given a unit, with its position.\<close>

definition dropna :: "(int \<times> nat option) list \<Rightarrow> (int \<times> nat) list" where
  "dropna series = concat (map (\<lambda>(i, v). case v of None \<Rightarrow> [] | Some u \<Rightarrow> [(i, u)]) series)"

text \<open>
  The function. Its collaborators are parameters: \<open>supply_and_demand\<close> gives the submarket
  ratios for the movers and the units, \<open>predict_from_cfg\<close> maps each mover it is given to
  the position of a unit or to a missing value. \<open>choosers\<close> and \<open>locations_df\<close> are the frames
  that \<open>to_frame\<close> returned at the top of the call, before any price is changed. A value
  \<open>Inl e\<close> is the exception that ends the call.
\<close>

definition lcm_simulate ::
  "('c chooser list \<Rightarrow> 'm location list \<Rightarrow> (int \<rightharpoonup> rat))
     \<Rightarrow> ('c chooser list \<Rightarrow> 'm location list \<Rightarrow> (int \<times> nat option) list)
     \<Rightarrow> 'c chooser list \<Rightarrow> 'l location list \<Rightarrow> 'm location list
     \<Rightarrow> supply_correction option \<Rightarrow> int option
     \<Rightarrow> error + ('c, 'l, 'm) lcm_result" where
  "lcm_simulate supply_and_demand predict_from_cfg choosers buildings locations_df
       enable_supply_correction move_in_year =
     (let vacant_units = vacant_series buildings;
          overfull = overfull_count vacant_units;
          vacant_units = positive_vacant vacant_units;
          missing = missing_count vacant_units locations_df;
          units = candidate_units vacant_units locations_df;
          movers = filter (\<lambda>c. out_col c = - 1) choosers
      in case (case enable_supply_correction of
                 None \<Rightarrow> Inr (buildings, None, None)
               | Some cfg \<Rightarrow>
                   (case supply_correction_step cfg (supply_and_demand movers units) buildings of
                      Inl e \<Rightarrow> Inl e
                    | Inr (bs, hedonic, adjusted) \<Rightarrow> Inr (bs, Some hedonic, Some adjusted)))
         of Inl e \<Rightarrow> Inl e
          | Inr (buildings1, hedonic, adjusted) \<Rightarrow>
              (let movers1 = truncate_movers movers vacant_units;
                   new_units = dropna (predict_from_cfg movers1 units)
               in if \<exists>(i, u) \<in> set new_units. length units \<le> u
                  then Inl (KeyError ''units'')
                  else
                    (let new_buildings = map (\<lambda>(i, u). (i, location_index (units ! u))) new_units;
                         choosers1 = update_out_col choosers new_buildings;
                         choosers2 =
                           (case move_in_year of
                              None \<Rightarrow> choosers1
                            | Some y \<Rightarrow>
                                if y = 0 then choosers1
                                else update_move_in_year choosers1 (map (\<lambda>(i, u). (i, y)) new_units));
                         buildings2 =
                           (case enable_supply_correction of
                              None \<Rightarrow> buildings1
                            | Some cfg \<Rightarrow> clip_final_prices cfg buildings1)
                     in Inr \<lparr>overfull_reported = overfull,
                             missing_reported = missing,
                             movers_reported = length movers,
                             choice_movers = movers1,
                             choice_units = units,
                             price_hedonic = hedonic,
                             adjusted_prices = adjusted,
                             choosers_after = choosers2,
                             buildings_after = buildings2\<rparr>)))"

text \<open>The price that the two optional clips leave for a price \<open>p\<close>: lower bound first.\<close>

definition final_price :: "supply_correction \<Rightarrow> rat \<Rightarrow> rat" where
  "final_price cfg p =
     (let p = (case clip_final_price_low cfg of Some lo \<Rightarrow> clip_lower lo p | None \<Rightarrow> p)
      in case clip_final_price_high cfg of Some hi \<Rightarrow> clip_upper hi p | None \<Rightarrow> p)"

section \<open>Relocation: \<open>simple_relocation\<close>\<close>

text \<open>
  Python's \<open>float\<close> is the IEEE 754 binary64 format: a value is a multiple of the unit in
  the last place of its binade, with a significand of 53 bits, and the result of an
  operation is the exact result rounded to the nearest such value, a tie going to the
  even significand. A float is modelled by the rational it denotes. \<open>pow2 e\<close> is \<open>2\<close> to the
  power \<open>e\<close>; \<open>binade x\<close>, for \<open>x > 0\<close>, is the \<open>e\<close> with \<open>2^e \<le> x < 2^(e+1)\<close>; below
  the normal range the unit stays \<open>2^-1074\<close>. Overflow to infinity (results from \<open>2^1024\<close>
  on) is not modelled: the products formed here are at most \<open>len(choosers)\<close>.
\<close>

definition pow2 :: "int \<Rightarrow> rat" where
  "pow2 e = (if 0 \<le> e then 2 ^ nat e else 1 / 2 ^ nat (- e))"

definition binade :: "rat \<Rightarrow> int" where
  "binade x = (if 1 \<le> x then bitlen \<lfloor>x\<rfloor> - 1 else - bitlen (\<lceil>1 / x\<rceil> - 1))"

definition round_half_even :: "rat \<Rightarrow> int" where
  "round_half_even y =
     (let n = \<lfloor>y\<rfloor>; d = y - of_int n
      in if d < 1 / 2 then n
         else if 1 / 2 < d then n + 1
         else if even n then n else n + 1)"

definition double_ulp :: "rat \<Rightarrow> rat" where
  "double_ulp x = pow2 (max (binade x - 52) (- 1074))"

definition fl_double :: "rat \<Rightarrow> rat" where
  "fl_double x =
     (if x = 0 then 0
      else (let u = double_ulp \<bar>x\<bar>
            in sgn x * (of_int (round_half_even (\<bar>x\<bar> / u)) * u)))"

text \<open>\<open>int(x)\<close> truncates towards zero.\<close>

definition py_int :: "rat \<Rightarrow> int" where
  "py_int x = (if 0 \<le> x then \<lfloor>x\<rfloor> else \<lceil>x\<rceil>)"

text \<open>
  \<open>np.random.choice(a, size, replace=False)\<close> is \<open>a[permutation(len(a))[:size]]\<close>. The
  permutation that the generator draws is the parameter \<open>perm\<close>. The call raises
  \<open>ValueError\<close> for a negative size and for a sample larger than the population.
\<close>

definition random_choice :: "nat list \<Rightarrow> 'a list \<Rightarrow> int \<Rightarrow> error + 'a list" where
  "random_choice perm a n =
     (if n < 0 then Inl ValueError
      else if int (length a) < n then Inl ValueError
      else Inr (map (\<lambda>i. a ! i) (take (nat n) perm)))"

text \<open>
  The table of choosers after the call; \<open>out_col\<close> is the column \<open>fieldname\<close>. The rate is
  a float, and \<open>relocation_rate * len(choosers)\<close> is the float product: the exact product
  rounded (the length of a table is below \<open>2^53\<close> and converts to a float exactly).
\<close>

definition simple_relocation :: "nat list \<Rightarrow> 'c chooser list \<Rightarrow> rat \<Rightarrow> error + 'c chooser list" where
  "simple_relocation perm choosers relocation_rate =
     (case random_choice perm (map chooser_index choosers)
             (py_int (fl_double (relocation_rate * of_nat (length choosers)))) of
        Inl e \<Rightarrow> Inl e
      | Inr chooser_ids \<Rightarrow> Inr (update_out_col choosers (map (\<lambda>i. (i, - 1)) chooser_ids)))"

text \<open>
  The number of agents the call samples, the ids at the first \<open>k\<close> positions of the drawn
  permutation, and the permutations of \<open>N\<close> positions that begin with a given selection.
\<close>

definition sample_size :: "rat \<Rightarrow> nat \<Rightarrow> nat" where
  "sample_size r N = nat (py_int (fl_double (r * of_nat N)))"

definition draws_with_prefix :: "nat \<Rightarrow> nat list \<Rightarrow> nat list set" where
  "draws_with_prefix N sel =
     {perm. distinct perm \<and> set perm = {0..<N} \<and> take (length sel) perm = sel}"

definition relocated_ids :: "nat list \<Rightarrow> 'c chooser list \<Rightarrow> nat \<Rightarrow> int list" where
  "relocated_ids perm choosers k = map (\<lambda>i. chooser_index (choosers ! i)) (take k perm)"

section \<open>Transition: \<open>full_transition\<close>\<close>


datatype ('b, 'k) table = Agents "'b agent list" | Linked "'k list"





section \<open>Missing values: \<open>check_nas\<close> and \<open>to_frame\<close>\<close>

text \<open>
  A cell of a frame: a number, a text, the missing value, or an infinity. A frame has its
  column names and its rows; a row is its index and the cell of every column.
\<close>

datatype cell = Number rat | Text string | NaN | PosInf | NegInf

record frame =
  frame_columns :: "string list"
  frame_rows :: "(int \<times> (string \<Rightarrow> cell)) list"

text \<open>\<open>df.replace([np.inf, -np.inf], np.nan)\<close>.\<close>

definition replace_inf :: "cell \<Rightarrow> cell" where
  "replace_inf c = (if c = PosInf \<or> c = NegInf then NaN else c)"

definition replace_inf_frame :: "frame \<Rightarrow> frame" where
  "replace_inf_frame df =
     df\<lparr>frame_rows := map (\<lambda>(i, r). (i, \<lambda>col. replace_inf (r col))) (frame_rows df)\<rparr>"

text \<open>\<open>df[col].count()\<close>: the number of cells of the column that are not missing.\<close>

definition count_col :: "frame \<Rightarrow> string \<Rightarrow> nat" where
  "count_col df col = length (filter (\<lambda>(i, r). r col \<noteq> NaN) (frame_rows df))"

text \<open>The loop over the columns, threading the flag \<open>fail\<close>.\<close>

fun check_columns :: "nat \<Rightarrow> frame \<Rightarrow> string list \<Rightarrow> bool \<Rightarrow> bool" where
  "check_columns df_cnt df [] fail = fail"
| "check_columns df_cnt df (col # cols) fail =
     (let s_cnt = count_col df col
      in check_columns df_cnt df cols (if df_cnt \<noteq> s_cnt then True else fail))"

definition check_nas :: "frame \<Rightarrow> error + unit" where
  "check_nas df =
     (let df_cnt = length (frame_rows df);
          fail = False;
          df = replace_inf_frame df;
          fail = check_columns df_cnt df (frame_columns df) fail
      in if fail then Inl AssertionError else Inr ())"

text \<open>
  \<open>to_frame\<close>: \<open>joined\<close> is what lines 193 to 202 produce (the configuration is read and
  the tables are merged by \<open>orca\<close>), a frame or the exception raised there; the frame is
  then checked and returned.
\<close>

definition to_frame :: "error + frame \<Rightarrow> error + frame" where
  "to_frame joined =
     (case joined of
        Inl e \<Rightarrow> Inl e
      | Inr df \<Rightarrow> (case check_nas df of Inl e \<Rightarrow> Inl e | Inr u \<Rightarrow> Inr df))"

text \<open>A cell that is missing or infinite.\<close>

definition missing_or_inf :: "cell \<Rightarrow> bool" where
  "missing_or_inf c = (c = NaN \<or> c = PosInf \<or> c = NegInf)"

section \<open>Development: the target of \<open>run_developer\<close>\<close>

text \<open>
  Lines 835 to 838: \<open>num_units_to_build or dev.compute_units_to_build(...)\<close>. Python's
  \<open>or\<close> yields its left operand when that is truthy (an integer other than zero) and
  evaluates the right operand only otherwise. \<open>compute_units_to_build\<close> is the
  developer's own function, a parameter here.
\<close>

definition run_developer_target_units ::
  "int option \<Rightarrow> (nat \<Rightarrow> int \<Rightarrow> rat \<Rightarrow> error + int) \<Rightarrow> nat \<Rightarrow> int \<Rightarrow> rat \<Rightarrow> error + int" where
  "run_developer_target_units num_units_to_build compute_units_to_build
       len_agents supply_sum target_vacancy =
     (case num_units_to_build of
        None \<Rightarrow> compute_units_to_build len_agents supply_sum target_vacancy
      | Some n \<Rightarrow>
          if n \<noteq> 0 then Inr n
          else compute_units_to_build len_agents supply_sum target_vacancy)"

section \<open>Facts about the primitives\<close>

lemma mask_select_map: "mask_select xs (map P xs) = filter P xs"
  by (induction xs) (auto simp: mask_select_def)

lemma mask_select_isin:
  "mask_select xs (isin (map f xs) vals) = filter (\<lambda>x. f x \<in> set vals) xs"
  using mask_select_map [of xs "\<lambda>x. f x \<in> set vals"] by (simp add: isin_def comp_def)

lemma mask_select_not_isin:
  "mask_select xs (logical_not (isin (map f xs) vals)) = filter (\<lambda>x. f x \<notin> set vals) xs"
  using mask_select_map [of xs "\<lambda>x. f x \<notin> set vals"]
  by (simp add: isin_def logical_not_def comp_def)

lemma set_building_id_where_isin:
  "set_building_id_where cow agents (isin (map building_id agents) ids) =
     (if cow then agents else unplace_rows (set ids) agents)"
  by (induction agents) (auto simp: set_building_id_where_def isin_def unplace_rows_def)

lemma unplace_rows_idem: "unplace_rows ids (unplace_rows ids agents) = unplace_rows ids agents"
  by (induction agents) (auto simp: unplace_rows_def)

lemma unplace_rows_empty: "unplace_rows {} agents = agents"
  by (induction agents) (auto simp: unplace_rows_def)

lemma unplace_loop_step:
  "T tbl = Some agents \<Longrightarrow>
     unplace_loop cow ids (tbl # rest) T =
       unplace_loop cow ids rest
         (T(tbl \<mapsto> if cow then agents else unplace_rows (set ids) agents))"
  by (simp add: set_building_id_where_isin)

text \<open>With copy-on-write the loop changes no table at all.\<close>

lemma unplace_loop_copy_on_write: "fst (unplace_loop True ids names T) = T"
proof (induction names)
  case Nil
  show ?case by simp
next
  case (Cons tbl rest)
  show ?case
  proof (cases "T tbl")
    case None
    then show ?thesis by simp
  next
    case (Some agents)
    then have "T(tbl \<mapsto> agents) = T" by (simp add: map_upd_triv)
    then show ?thesis using Some Cons.IH by (simp add: set_building_id_where_isin)
  qed
qed

text \<open>In either mode a table is untouched or has its rows on removed buildings unplaced.\<close>

lemma unplace_loop_any:
  "unplace_loop cow ids names T = (T', r) \<Longrightarrow>
     T' n = T n \<or> (n \<in> set names \<and> T' n = map_option (unplace_rows (set ids)) (T n))"
proof (induction names arbitrary: T)
  case Nil
  then show ?case by simp
next
  case (Cons tbl rest)
  show ?case
  proof (cases "T tbl")
    case None
    with Cons.prems show ?thesis by simp
  next
    case (Some agents)
    let ?T1 = "T(tbl \<mapsto> if cow then agents else unplace_rows (set ids) agents)"
    from Cons.prems Some have "unplace_loop cow ids rest ?T1 = (T', r)"
      by (simp only: unplace_loop_step)
    from Cons.IH [OF this]
    have "T' n = ?T1 n \<or> (n \<in> set rest \<and> T' n = map_option (unplace_rows (set ids)) (?T1 n))" .
    then show ?thesis using Some
      by (cases cow; cases "n = tbl") (auto simp: unplace_rows_idem)
  qed
qed

lemma unplace_loop_result:
  "snd (unplace_loop cow ids names T) =
     (case find (\<lambda>n. T n = None) names of None \<Rightarrow> Inr () | Some n \<Rightarrow> Inl (KeyError n))"
proof (induction names arbitrary: T)
  case Nil
  then show ?case by simp
next
  case (Cons tbl rest)
  show ?case
  proof (cases "T tbl")
    case None
    then show ?thesis by simp
  next
    case (Some agents)
    have "find (\<lambda>n. (T(tbl \<mapsto> x)) n = None) rest = find (\<lambda>n. T n = None) rest" for x
      using Some by (intro find_cong) auto
    then show ?thesis using Some Cons.IH by (simp add: Let_def)
  qed
qed

lemma unplace_loop_no_drops: "fst (unplace_loop cow [] names T) = T"
proof -
  obtain T' r where eq: "unplace_loop cow [] names T = (T', r)"
    by (cases "unplace_loop cow [] names T")
  have "T' n = T n" for n
    using unplace_loop_any [OF eq, of n] by (cases "T n") (auto simp: unplace_rows_empty)
  then show ?thesis using eq by auto
qed

text \<open>The pieces of one call, as filters of the old buildings.\<close>

lemma drop_buildings_eq:
  "mask_select old (isin (map parcel_id old) (map parcel_id new)) = redeveloped old new"
  by (simp add: mask_select_isin redeveloped_def)

lemma kept_buildings_eq:
  "mask_select old (logical_not (isin (map parcel_id old) (map parcel_id new))) =
     filter (\<lambda>b. parcel_id b \<notin> parcel_id ` set new) old"
  by (simp add: mask_select_not_isin)

lemma remove_developed_buildings_unfold:
  "remove_developed_buildings cow st old new names =
     (let lp = unplace_loop cow (map building_index (redeveloped old new)) names (agent_tables st)
      in (\<lparr>dropped_buildings = Some (redeveloped old new @ recorded_drops st),
           agent_tables = fst lp\<rparr>,
          case snd lp of Inl e \<Rightarrow> Inl e
          | Inr u \<Rightarrow> Inr (filter (\<lambda>b. parcel_id b \<notin> parcel_id ` set new) old)))"
  by (cases st)
     (simp add: remove_developed_buildings_def drop_buildings_eq kept_buildings_eq
        recorded_drops_def Let_def split: prod.splits option.splits sum.splits)

section \<open>Redevelopment removal and unplacing\<close>

text \<open>
  Claim C1. After \<open>_remove_developed_buildings(old, new, unplace_agents)\<close> no agent of a
  table named in \<open>unplace_agents\<close> should still have the id of a removed building as its
  \<open>building_id\<close>. The code does not achieve this under copy-on-write: the assignment of
  line 748 then never reaches the frame, so a call changes no agent table whatever its
  arguments. With buildings 10 (parcel 100) and 11 (parcel 101), a new building on parcel
  100 and households 1 (in building 10) and 2 (in building 11), the call returns building
  11 alone, building 10 is the removed one, and household 1 still has \<open>building_id = 10\<close>.
  Without copy-on-write the same call gives household 1 the value \<open>-1\<close>.
\<close>

theorem remove_developed_buildings_copy_on_write:
  "agent_tables (fst (remove_developed_buildings True st old new unplace_agents)) = agent_tables st
   \<and> snd (remove_developed_buildings True
           \<lparr>dropped_buildings = None,
            agent_tables = [''households'' \<mapsto>
              [\<lparr>agent_index = 1, building_id = 10, agent_cols = ()\<rparr>,
               \<lparr>agent_index = 2, building_id = 11, agent_cols = ()\<rparr>]]\<rparr>
           [\<lparr>building_index = 10, parcel_id = 100, building_cols = ()\<rparr>,
            \<lparr>building_index = 11, parcel_id = 101, building_cols = ()\<rparr>]
           [\<lparr>building_index = 0, parcel_id = 100, building_cols = ()\<rparr>]
           [''households''])
       = Inr [\<lparr>building_index = 11, parcel_id = 101, building_cols = ()\<rparr>]
   \<and> removed_ids
           [\<lparr>building_index = 10, parcel_id = 100, building_cols = ()\<rparr>,
            \<lparr>building_index = 11, parcel_id = 101, building_cols = ()\<rparr>]
           [\<lparr>building_index = 0, parcel_id = 100, building_cols = ()\<rparr>] = {10}
   \<and> agent_tables (fst (remove_developed_buildings True
           \<lparr>dropped_buildings = None,
            agent_tables = [''households'' \<mapsto>
              [\<lparr>agent_index = 1, building_id = 10, agent_cols = ()\<rparr>,
               \<lparr>agent_index = 2, building_id = 11, agent_cols = ()\<rparr>]]\<rparr>
           [\<lparr>building_index = 10, parcel_id = 100, building_cols = ()\<rparr>,
            \<lparr>building_index = 11, parcel_id = 101, building_cols = ()\<rparr>]
           [\<lparr>building_index = 0, parcel_id = 100, building_cols = ()\<rparr>]
           [''households''])) ''households''
       = Some [\<lparr>agent_index = 1, building_id = 10, agent_cols = ()\<rparr>,
               \<lparr>agent_index = 2, building_id = 11, agent_cols = ()\<rparr>]
   \<and> agent_tables (fst (remove_developed_buildings False
           \<lparr>dropped_buildings = None,
            agent_tables = [''households'' \<mapsto>
              [\<lparr>agent_index = 1, building_id = 10, agent_cols = ()\<rparr>,
               \<lparr>agent_index = 2, building_id = 11, agent_cols = ()\<rparr>]]\<rparr>
           [\<lparr>building_index = 10, parcel_id = 100, building_cols = ()\<rparr>,
            \<lparr>building_index = 11, parcel_id = 101, building_cols = ()\<rparr>]
           [\<lparr>building_index = 0, parcel_id = 100, building_cols = ()\<rparr>]
           [''households''])) ''households''
       = Some [\<lparr>agent_index = 1, building_id = - 1, agent_cols = ()\<rparr>,
               \<lparr>agent_index = 2, building_id = 11, agent_cols = ()\<rparr>]"
proof -
  have general:
    "agent_tables (fst (remove_developed_buildings True st old new unplace_agents)) = agent_tables st"
    by (simp add: remove_developed_buildings_unfold Let_def unplace_loop_copy_on_write)
  have ids: "removed_ids
           [\<lparr>building_index = 10, parcel_id = 100, building_cols = ()\<rparr>,
            \<lparr>building_index = 11, parcel_id = 101, building_cols = ()\<rparr>]
           [\<lparr>building_index = 0, parcel_id = 100, building_cols = ()\<rparr>] = {10}"
    by (simp add: removed_ids_def redeveloped_def)
  show ?thesis
    unfolding general ids
    by (simp add: remove_developed_buildings_unfold Let_def redeveloped_def
          set_building_id_where_def isin_def)
qed

text \<open>
  Claim C6. If no parcel id of \<open>new\<close> is a parcel id of \<open>old\<close>, then
  \<open>_remove_developed_buildings\<close> changes no agent table, and it returns \<open>old\<close> itself
  (every row, in order) whenever it returns: it raises only the \<open>KeyError\<close> of
  \<open>orca.get_table\<close> for the first name of \<open>unplace_agents\<close> that is not a registered table.
  This holds with and without copy-on-write.
\<close>

theorem remove_developed_buildings_disjoint:
  assumes disj: "parcel_id ` set new \<inter> parcel_id ` set old = {}"
  shows "agent_tables (fst (remove_developed_buildings cow st old new unplace_agents)) =
           agent_tables st
       \<and> snd (remove_developed_buildings cow st old new unplace_agents) =
           (case find (\<lambda>n. agent_tables st n = None) unplace_agents of
              None \<Rightarrow> Inr old
            | Some n \<Rightarrow> Inl (KeyError n))"
proof -
  have none: "redeveloped old new = []"
    using disj by (auto simp: redeveloped_def filter_empty_conv)
  have keep: "filter (\<lambda>b. parcel_id b \<notin> parcel_id ` set new) old = old"
    using disj by (auto simp: filter_id_conv)
  show ?thesis
    by (simp add: remove_developed_buildings_unfold none keep Let_def unplace_loop_no_drops
          unplace_loop_result split: option.splits)
qed

theorem remove_developed_buildings_disjoint_witness:
  "parcel_id ` set [\<lparr>building_index = 0, parcel_id = 200, building_cols = ()\<rparr>]
     \<inter> parcel_id ` set [\<lparr>building_index = 10, parcel_id = 100, building_cols = ()\<rparr>,
            \<lparr>building_index = 11, parcel_id = 101, building_cols = ()\<rparr>] = {}
   \<and> snd (remove_developed_buildings False
          \<lparr>dropped_buildings = None,
           agent_tables = [''households'' \<mapsto>
             [\<lparr>agent_index = 1, building_id = 10, agent_cols = ()\<rparr>]]\<rparr>
          [\<lparr>building_index = 10, parcel_id = 100, building_cols = ()\<rparr>,
            \<lparr>building_index = 11, parcel_id = 101, building_cols = ()\<rparr>]
          [\<lparr>building_index = 0, parcel_id = 200, building_cols = ()\<rparr>]
          [''households''])
     = Inr [\<lparr>building_index = 10, parcel_id = 100, building_cols = ()\<rparr>,
            \<lparr>building_index = 11, parcel_id = 101, building_cols = ()\<rparr>]
   \<and> agent_tables (fst (remove_developed_buildings False
          \<lparr>dropped_buildings = None,
           agent_tables = [''households'' \<mapsto>
             [\<lparr>agent_index = 1, building_id = 10, agent_cols = ()\<rparr>]]\<rparr>
          [\<lparr>building_index = 10, parcel_id = 100, building_cols = ()\<rparr>,
            \<lparr>building_index = 11, parcel_id = 101, building_cols = ()\<rparr>]
          [\<lparr>building_index = 0, parcel_id = 200, building_cols = ()\<rparr>]
          [''households'']))
     = [''households'' \<mapsto> [\<lparr>agent_index = 1, building_id = 10, agent_cols = ()\<rparr>]]"
proof -
  let ?old = "[\<lparr>building_index = 10, parcel_id = 100, building_cols = ()\<rparr>,
            \<lparr>building_index = 11, parcel_id = 101, building_cols = ()\<rparr>]"
  let ?new = "[\<lparr>building_index = 0, parcel_id = 200, building_cols = ()\<rparr>]"
  let ?st = "\<lparr>dropped_buildings = None,
           agent_tables = [''households'' \<mapsto>
             [\<lparr>agent_index = 1, building_id = 10, agent_cols = ()\<rparr>]]\<rparr>"
  have h: "parcel_id ` set ?new \<inter> parcel_id ` set ?old = {}" by simp
  from remove_developed_buildings_disjoint [OF h, of False ?st "[''households'']"] h
  show ?thesis by simp
qed

text \<open>
  Claim C10. Each call of \<open>_remove_developed_buildings\<close> stores under
  \<open>"dropped_buildings"\<close> the full rows it removes followed by the rows recorded before
  (creating the entry when it was absent); so after any run of calls the recorded rows
  are the rows recorded at the start together with every row removed by any of the calls.
\<close>

theorem dropped_buildings_accumulate:
  "dropped_buildings (fst (remove_developed_buildings cow st old new unplace_agents)) =
     Some (redeveloped old new @ recorded_drops st)
   \<and> set (recorded_drops (redevelopment_calls cow st calls)) =
       set (recorded_drops st) \<union> (\<Union>(old, new, names) \<in> set calls. set (redeveloped old new))"
proof
  show "dropped_buildings (fst (remove_developed_buildings cow st old new unplace_agents)) =
     Some (redeveloped old new @ recorded_drops st)"
    by (simp add: remove_developed_buildings_unfold Let_def)
  show "set (recorded_drops (redevelopment_calls cow st calls)) =
       set (recorded_drops st) \<union> (\<Union>(old, new, names) \<in> set calls. set (redeveloped old new))"
  proof (induction calls arbitrary: st)
    case Nil
    show ?case by simp
  next
    case (Cons c calls)
    obtain old new names where c: "c = (old, new, names)" by (cases c)
    have "recorded_drops (fst (remove_developed_buildings cow st old new names)) =
            redeveloped old new @ recorded_drops st"
      by (simp add: remove_developed_buildings_unfold Let_def recorded_drops_def)
    then show ?case
      using Cons.IH [of "fst (remove_developed_buildings cow st old new names)"] c
      by auto
  qed
qed

theorem dropped_buildings_accumulate_witness:
  "set (recorded_drops (redevelopment_calls False
      \<lparr>dropped_buildings = None, agent_tables = Map.empty\<rparr>
      [([\<lparr>building_index = 10, parcel_id = 100, building_cols = ()\<rparr>,
         \<lparr>building_index = 11, parcel_id = 101, building_cols = ()\<rparr>],
        [\<lparr>building_index = 0, parcel_id = 100, building_cols = ()\<rparr>], []),
       ([\<lparr>building_index = 11, parcel_id = 101, building_cols = ()\<rparr>,
         \<lparr>building_index = 12, parcel_id = 100, building_cols = ()\<rparr>],
        [\<lparr>building_index = 0, parcel_id = 101, building_cols = ()\<rparr>], [])]))
   = {\<lparr>building_index = 10, parcel_id = 100, building_cols = ()\<rparr>,
      \<lparr>building_index = 11, parcel_id = 101, building_cols = ()\<rparr>}"
  using dropped_buildings_accumulate
    [of False "\<lparr>dropped_buildings = None, agent_tables = Map.empty\<rparr>" "[]" "[]" "[]"
      "[([\<lparr>building_index = 10, parcel_id = 100, building_cols = ()\<rparr>,
         \<lparr>building_index = 11, parcel_id = 101, building_cols = ()\<rparr>],
        [\<lparr>building_index = 0, parcel_id = 100, building_cols = ()\<rparr>], []),
       ([\<lparr>building_index = 11, parcel_id = 101, building_cols = ()\<rparr>,
         \<lparr>building_index = 12, parcel_id = 100, building_cols = ()\<rparr>],
        [\<lparr>building_index = 0, parcel_id = 101, building_cols = ()\<rparr>], [])]"]
  by (auto simp: recorded_drops_def redeveloped_def)

section \<open>Facts about \<open>lcm_simulate\<close>\<close>

lemma repeated_indexes_eq:
  "repeated_indexes vs = concat (map (\<lambda>(i, v). replicate (nat v) i) vs)"
  by (simp add: repeated_indexes_def np_repeat_def zip_map_fst_snd)

lemma repeated_indexes_positive:
  "repeated_indexes (positive_vacant (vacant_series bs)) =
     concat (map (\<lambda>b. replicate (nat (vacant_col b)) (location_index b)) bs)"
  by (induction bs) (auto simp: repeated_indexes_eq positive_vacant_def vacant_series_def)

lemma mask_select_isin_self:
  "mask_select xs (isin xs vals) = filter (\<lambda>x. x \<in> set vals) xs"
  using mask_select_map [of xs "\<lambda>x. x \<in> set vals"] by (simp add: isin_def)

lemma loc_rows_filter_found:
  "loc_rows df (filter (\<lambda>i. i \<in> set (map location_index df)) labels) = loc_rows df labels"
proof (induction labels)
  case Nil
  show ?case by simp
next
  case (Cons i labels)
  have "i \<notin> location_index ` set df \<Longrightarrow> filter (\<lambda>r. location_index r = i) df = []"
    by (auto simp: filter_empty_conv)
  then show ?case using Cons by (auto simp: loc_rows_def)
qed

lemma loc_rows_append: "loc_rows df (xs @ ys) = loc_rows df xs @ loc_rows df ys"
  by (simp add: loc_rows_def)

lemma loc_rows_replicate:
  "loc_rows df (replicate n i) = concat (replicate n (filter (\<lambda>r. location_index r = i) df))"
  by (induction n) (simp_all add: loc_rows_def)

lemma candidate_units_eq:
  "candidate_units (positive_vacant (vacant_series bs)) df =
     concat (map (\<lambda>b. concat (replicate (nat (vacant_col b))
                          (filter (\<lambda>r. location_index r = location_index b) df))) bs)"
proof -
  have "loc_rows df (concat (map (\<lambda>b. replicate (nat (vacant_col b)) (location_index b)) bs)) =
     concat (map (\<lambda>b. concat (replicate (nat (vacant_col b))
                          (filter (\<lambda>r. location_index r = location_index b) df))) bs)"
    by (induction bs) (simp_all add: loc_rows_append loc_rows_replicate, simp add: loc_rows_def)
  then show ?thesis
    by (simp only: candidate_units_def Let_def mask_select_isin_self loc_rows_filter_found
          repeated_indexes_positive)
qed

lemma overfull_count_eq:
  "overfull_count (vacant_series bs) = length (filter (\<lambda>b. vacant_col b < 0) bs)"
  by (induction bs) (auto simp: overfull_count_def vacant_series_def)

lemma length_concat_replicate: "length (concat (replicate n xs)) = n * length xs"
  by (induction n) simp_all

lemma filter_concat_replicate:
  "filter P (concat (replicate n xs)) = concat (replicate n (filter P xs))"
  by (induction n) simp_all

lemma count_candidate_units:
  "length (filter (\<lambda>u. location_index u = i)
      (candidate_units (positive_vacant (vacant_series bs)) df)) =
     (\<Sum>b\<leftarrow>bs. if location_index b = i
               then nat (vacant_col b) * length (filter (\<lambda>r. location_index r = i) df) else 0)"
proof (induction bs)
  case Nil
  show ?case by (simp add: candidate_units_eq)
next
  case (Cons b bs)
  have "filter (\<lambda>u. location_index u = i) (filter (\<lambda>r. location_index r = location_index b) df) =
          (if location_index b = i then filter (\<lambda>r. location_index r = i) df else [])"
    by (auto simp: filter_empty_conv intro: filter_cong)
  then show ?case using Cons
    by (simp add: candidate_units_eq filter_concat_replicate length_concat_replicate)
qed

lemma sum_list_single:
  "distinct (map f bs) \<Longrightarrow> b \<in> set bs \<Longrightarrow>
     (\<Sum>b'\<leftarrow>bs. if f b' = f b then g b' else (0::nat)) = g b"
proof (induction bs)
  case Nil
  then show ?case by simp
next
  case (Cons a bs)
  show ?case
  proof (cases "a = b")
    case True
    have "f b \<notin> f ` set bs" using Cons.prems True by simp
    then have "\<forall>b' \<in> set bs. f b' \<noteq> f b" by (metis imageI)
    then have "(\<Sum>b'\<leftarrow>bs. if f b' = f b then g b' else 0) = 0"
      by (induction bs) auto
    then show ?thesis using True by simp
  next
    case False
    then have "b \<in> set bs" and "f a \<noteq> f b" using Cons.prems by auto
    then show ?thesis using Cons by simp
  qed
qed

lemma length_filter_distinct:
  "distinct (map f df) \<Longrightarrow>
     length (filter (\<lambda>r. f r = i) df) = (if i \<in> f ` set df then 1 else 0)"
proof (induction df)
  case Nil
  then show ?case by simp
next
  case (Cons r df)
  then show ?case by (auto simp: filter_empty_conv)
qed

lemma set_candidate_units:
  "set (candidate_units (positive_vacant (vacant_series bs)) df) =
     {r \<in> set df. \<exists>b \<in> set bs. location_index r = location_index b \<and> 0 < vacant_col b}"
  by (auto simp: candidate_units_eq)

text \<open>What a completed call reports, whatever the configuration.\<close>

lemma lcm_simulate_Inr:
  assumes "lcm_simulate sd pr choosers buildings locations_df cfg y = Inr res"
  shows "overfull_reported res = overfull_count (vacant_series buildings)"
    and "missing_reported res = missing_count (positive_vacant (vacant_series buildings)) locations_df"
    and "choice_units res = candidate_units (positive_vacant (vacant_series buildings)) locations_df"
    and "choice_movers res =
           truncate_movers (filter (\<lambda>c. out_col c = - 1) choosers)
             (positive_vacant (vacant_series buildings))"
  using assms
  by (auto simp: lcm_simulate_def Let_def split: sum.splits option.splits if_splits prod.splits)

lemma missing_count_eq:
  "missing_count vs df =
     length (filter (\<lambda>i. i \<notin> location_index ` set df) (repeated_indexes vs))"
proof -
  have "length (filter Not (map P xs)) = length (filter (\<lambda>x. \<not> P x) xs)" for P and xs :: "int list"
    by (induction xs) simp_all
  then show ?thesis by (simp add: missing_count_def isin_def Let_def)
qed

lemma length_loc_rows:
  assumes "distinct (map location_index df)"
  shows "length (loc_rows df labels) =
           length (filter (\<lambda>i. i \<in> location_index ` set df) labels)"
proof (induction labels)
  case Nil
  show ?case by (simp add: loc_rows_def)
next
  case (Cons i labels)
  have "loc_rows df (i # labels) = filter (\<lambda>r. location_index r = i) df @ loc_rows df labels"
    by (simp add: loc_rows_def)
  then show ?case using Cons length_filter_distinct [OF assms, of i] by simp
qed

lemma length_candidate_units:
  assumes "distinct (map location_index df)"
  shows "length (candidate_units vs df) =
           length (filter (\<lambda>i. i \<in> location_index ` set df) (repeated_indexes vs))"
  by (simp add: candidate_units_def Let_def mask_select_isin_self length_loc_rows [OF assms])

lemma length_repeated_indexes_positive:
  "int (length (repeated_indexes (positive_vacant vs))) = sum_list (map snd (positive_vacant vs))"
  by (induction vs) (auto simp: repeated_indexes_eq positive_vacant_def)

lemma units_plus_missing:
  assumes "distinct (map location_index df)"
  shows "int (length (candidate_units (positive_vacant vs) df)
              + missing_count (positive_vacant vs) df) =
           sum_list (map snd (positive_vacant vs))"
proof -
  have "length (filter P xs) + length (filter (\<lambda>x. \<not> P x) xs) = length xs"
    for P and xs :: "int list"
    by (induction xs) simp_all
  then have "length (candidate_units (positive_vacant vs) df)
              + missing_count (positive_vacant vs) df
           = length (repeated_indexes (positive_vacant vs))"
    by (simp add: length_candidate_units [OF assms] missing_count_eq)
  then show ?thesis using length_repeated_indexes_positive [of vs] by simp
qed

lemma shifted_prices_length:
  "shifted_prices ratios bs = Inr ps \<Longrightarrow> length ps = length bs"
  by (induction bs arbitrary: ps) (auto split: option.splits sum.splits)

lemma price_col_update_prices:
  "length ps = length bs \<Longrightarrow> map price_col (update_prices bs ps) = ps"
  by (induction bs ps rule: list_induct2') (simp_all add: update_prices_def)

lemma price_col_clip_final_prices:
  "map price_col (clip_final_prices cfg bs) = map (final_price cfg) (map price_col bs)"
proof -
  have "length (map f (map price_col bs)) = length bs" for f :: "rat \<Rightarrow> rat" by simp
  then show ?thesis
    by (auto simp: clip_final_prices_def final_price_def Let_def price_col_update_prices
          split: option.splits)
qed

lemma supply_correction_step_Inr:
  assumes "supply_correction_step cfg ratios bs = Inr (bs1, hedonic, adjusted)"
  shows "hedonic = map price_col bs" and "length adjusted = length bs"
    and "map price_col bs1 = adjusted"
  using assms
  by (auto simp: supply_correction_step_def Let_def price_col_update_prices
        dest: shifted_prices_length split: if_splits sum.splits)

text \<open>The definitions that evaluate a call of \<open>lcm_simulate\<close> on concrete tables.\<close>

lemmas lcm_eval =
  lcm_simulate_def vacant_series_def overfull_count_def positive_vacant_def missing_count_def
  candidate_units_def repeated_indexes_def np_repeat_def loc_rows_def isin_def mask_select_def
  truncate_movers_def dropna_def update_out_col_def update_move_in_year_def
  supply_correction_step_def reindex_fill_def update_prices_def clip_final_prices_def
  clip_lower_def clip_upper_def Let_def

section \<open>Candidate units\<close>

text \<open>
  Claim C2 (as amended). In a completed call of \<open>lcm_simulate\<close> on tables with unique
  indexes, the units handed to the predictor are rows of \<open>locations_df\<close>; a building with
  vacancy \<open>v > 0\<close> whose index is in \<open>locations_df\<close> contributes exactly \<open>v\<close> of them, a building
  with zero or negative vacancy, or one that is missing from \<open>locations_df\<close>, contributes
  none; every unit belongs to a building of positive vacancy; and the reported overfull
  count is the number of buildings with negative vacancy. For building 1 with vacancy 5
  and building 2 with vacancy -1 this gives 5 rows, all of building 1, and the count 1.
\<close>

theorem lcm_simulate_candidate_units:
  assumes ok: "lcm_simulate sd pr choosers buildings locations_df cfg y = Inr res"
      and db: "distinct (map location_index buildings)"
      and dl: "distinct (map location_index locations_df)"
  shows "overfull_reported res = length (filter (\<lambda>b. vacant_col b < 0) buildings)
       \<and> set (choice_units res) \<subseteq> set locations_df
       \<and> (\<forall>b \<in> set buildings.
            length (filter (\<lambda>u. location_index u = location_index b) (choice_units res)) =
              (if 0 < vacant_col b \<and> location_index b \<in> location_index ` set locations_df
               then nat (vacant_col b) else 0))
       \<and> (\<forall>u \<in> set (choice_units res).
            \<exists>b \<in> set buildings. location_index u = location_index b \<and> 0 < vacant_col b)"
proof -
  note r = lcm_simulate_Inr [OF ok]
  have 1: "overfull_reported res = length (filter (\<lambda>b. vacant_col b < 0) buildings)"
    by (simp add: r(1) overfull_count_eq)
  have 2: "set (choice_units res) \<subseteq> set locations_df"
    by (auto simp: r(3) set_candidate_units)
  have 3: "length (filter (\<lambda>u. location_index u = location_index b) (choice_units res)) =
              (if 0 < vacant_col b \<and> location_index b \<in> location_index ` set locations_df
               then nat (vacant_col b) else 0)" if b: "b \<in> set buildings" for b
  proof -
    let ?m = "length (filter (\<lambda>r. location_index r = location_index b) locations_df)"
    have "length (filter (\<lambda>u. location_index u = location_index b) (choice_units res)) =
            (\<Sum>b'\<leftarrow>buildings. if location_index b' = location_index b
               then nat (vacant_col b') * ?m else 0)"
      by (simp only: r(3) count_candidate_units)
    also have "\<dots> = nat (vacant_col b) * ?m"
      using sum_list_single [OF db b, of "\<lambda>b'. nat (vacant_col b') * ?m"] by simp
    finally show ?thesis
      using length_filter_distinct [OF dl, of "location_index b"] by auto
  qed
  have 4: "\<forall>u \<in> set (choice_units res).
            \<exists>b \<in> set buildings. location_index u = location_index b \<and> 0 < vacant_col b"
    by (auto simp: r(3) set_candidate_units)
  from 1 2 3 4 show ?thesis by blast
qed

theorem lcm_simulate_candidate_units_witness:
  "lcm_simulate (\<lambda>movers units. Map.empty) (\<lambda>movers units. []) ([] :: unit chooser list)
     [\<lparr>location_index = 1, supply_col = 5, vacant_col = 5, price_col = 0, submarket_col = 0, location_cols = ()\<rparr>,
      \<lparr>location_index = 2, supply_col = 3, vacant_col = - 1, price_col = 0, submarket_col = 0, location_cols = ()\<rparr>]
     [\<lparr>location_index = 1, supply_col = 5, vacant_col = 5, price_col = 0, submarket_col = 0, location_cols = ()\<rparr>,
      \<lparr>location_index = 2, supply_col = 3, vacant_col = - 1, price_col = 0, submarket_col = 0, location_cols = ()\<rparr>]
     None None
   = Inr \<lparr>overfull_reported = 1, missing_reported = 0, movers_reported = 0,
          choice_movers = [],
          choice_units = replicate 5 \<lparr>location_index = 1, supply_col = 5, vacant_col = 5, price_col = 0, submarket_col = 0, location_cols = ()\<rparr>,
          price_hedonic = None, adjusted_prices = None,
          choosers_after = [],
          buildings_after =
            [\<lparr>location_index = 1, supply_col = 5, vacant_col = 5, price_col = 0, submarket_col = 0, location_cols = ()\<rparr>,
             \<lparr>location_index = 2, supply_col = 3, vacant_col = - 1, price_col = 0, submarket_col = 0, location_cols = ()\<rparr>]\<rparr>
   \<and> length (filter (\<lambda>u. location_index u = 1) (replicate 5 \<lparr>location_index = 1, supply_col = 5, vacant_col = 5, price_col = 0, submarket_col = 0, location_cols = ()\<rparr>)) = 5
   \<and> length (filter (\<lambda>u. location_index u = 2) (replicate 5 \<lparr>location_index = 1, supply_col = 5, vacant_col = 5, price_col = 0, submarket_col = 0, location_cols = ()\<rparr>)) = 0"
proof -
  let ?bs = "[\<lparr>location_index = 1, supply_col = 5, vacant_col = 5, price_col = 0, submarket_col = 0, location_cols = ()\<rparr>,
      \<lparr>location_index = 2, supply_col = 3, vacant_col = - 1, price_col = 0, submarket_col = 0, location_cols = ()\<rparr>]"
  let ?res = "\<lparr>overfull_reported = 1, missing_reported = 0, movers_reported = 0,
          choice_movers = ([] :: unit chooser list),
          choice_units = replicate 5 \<lparr>location_index = 1, supply_col = 5, vacant_col = 5, price_col = 0, submarket_col = 0, location_cols = ()\<rparr>,
          price_hedonic = None, adjusted_prices = None,
          choosers_after = ([] :: unit chooser list),
          buildings_after = ?bs\<rparr>"
  have ok: "lcm_simulate (\<lambda>movers units. Map.empty) (\<lambda>movers units. [])
              ([] :: unit chooser list) ?bs ?bs None None = Inr ?res"
    by (simp add: lcm_eval numeral_eq_Suc)
  have d: "distinct (map location_index ?bs)" by simp
  from lcm_simulate_candidate_units [OF ok d d] ok show ?thesis by simp
qed

text \<open>
  The claim as first stated gives every building of positive vacancy \<open>v\<close> its \<open>v\<close> rows.
  A building that the join left out of \<open>locations_df\<close> gets none: here building 1 has
  vacancy 5, the five repeated indexes are counted as missing and there is no unit.
\<close>

theorem candidate_units_counterexample:
  "lcm_simulate (\<lambda>movers units. Map.empty) (\<lambda>movers units. []) []
     [\<lparr>location_index = 1, supply_col = 5, vacant_col = 5, price_col = 0, submarket_col = 0,
       location_cols = ()\<rparr>]
     [] None None
   = Inr \<lparr>overfull_reported = 0, missing_reported = 5, movers_reported = 0,
          choice_movers = ([] :: unit chooser list),
          choice_units = ([] :: unit location list),
          price_hedonic = None, adjusted_prices = None,
          choosers_after = [],
          buildings_after =
            [\<lparr>location_index = 1, supply_col = 5, vacant_col = 5, price_col = 0,
              submarket_col = 0, location_cols = ()\<rparr>]\<rparr>"
  by (simp add: lcm_eval numeral_eq_Suc)

section \<open>Truncating the movers\<close>

text \<open>
  Claim C3 (as amended). In a completed call of \<open>lcm_simulate\<close> (with a unique index on
  \<open>locations_df\<close>) the movers handed to the predictor are the first \<open>n\<close> rows of the mover
  table whenever there are more than \<open>n\<close> movers, and all movers otherwise, where \<open>n\<close> is
  \<open>vacant_units.sum()\<close>: the number of candidate-unit rows plus the number of repeated
  indexes reported missing from \<open>locations_df\<close>. So the movers are cut to the candidate-row
  count exactly when nothing is missing.
\<close>

theorem lcm_simulate_truncates_movers:
  assumes ok: "lcm_simulate sd pr choosers buildings locations_df cfg y = Inr res"
      and dl: "distinct (map location_index locations_df)"
  shows "choice_movers res =
           (if length (choice_units res) + missing_reported res
                 < length (filter (\<lambda>c. out_col c = - 1) choosers)
            then take (length (choice_units res) + missing_reported res)
                   (filter (\<lambda>c. out_col c = - 1) choosers)
            else filter (\<lambda>c. out_col c = - 1) choosers)"
proof -
  note r = lcm_simulate_Inr [OF ok]
  let ?pv = "positive_vacant (vacant_series buildings)"
  have tot: "sum_list (map snd ?pv) = int (length (choice_units res) + missing_reported res)"
    by (simp only: r(2) r(3) units_plus_missing [OF dl])
  show ?thesis
    unfolding r(4) truncate_movers_def tot by (simp only: nat_int of_nat_less_iff)
qed

theorem lcm_simulate_truncates_movers_witness:
  "lcm_simulate (\<lambda>movers units. Map.empty) (\<lambda>movers units. [])
     [\<lparr>chooser_index = 1, out_col = - 1, move_in_year_col = 0, chooser_cols = ()\<rparr>,
      \<lparr>chooser_index = 2, out_col = - 1, move_in_year_col = 0, chooser_cols = ()\<rparr>,
      \<lparr>chooser_index = 3, out_col = - 1, move_in_year_col = 0, chooser_cols = ()\<rparr>,
      \<lparr>chooser_index = 4, out_col = - 1, move_in_year_col = 0, chooser_cols = ()\<rparr>]
     [\<lparr>location_index = 1, supply_col = 2, vacant_col = 2, price_col = 0, submarket_col = 0, location_cols = ()\<rparr>]
     [\<lparr>location_index = 1, supply_col = 2, vacant_col = 2, price_col = 0, submarket_col = 0, location_cols = ()\<rparr>]
     None None
   = Inr \<lparr>overfull_reported = 0, missing_reported = 0, movers_reported = 4,
          choice_movers = [\<lparr>chooser_index = 1, out_col = - 1, move_in_year_col = 0, chooser_cols = ()\<rparr>,
             \<lparr>chooser_index = 2, out_col = - 1, move_in_year_col = 0, chooser_cols = ()\<rparr>],
          choice_units = [\<lparr>location_index = 1, supply_col = 2, vacant_col = 2, price_col = 0, submarket_col = 0, location_cols = ()\<rparr>,
             \<lparr>location_index = 1, supply_col = 2, vacant_col = 2, price_col = 0, submarket_col = 0, location_cols = ()\<rparr>],
          price_hedonic = None, adjusted_prices = None,
          choosers_after = [\<lparr>chooser_index = 1, out_col = - 1, move_in_year_col = 0, chooser_cols = ()\<rparr>,
      \<lparr>chooser_index = 2, out_col = - 1, move_in_year_col = 0, chooser_cols = ()\<rparr>,
      \<lparr>chooser_index = 3, out_col = - 1, move_in_year_col = 0, chooser_cols = ()\<rparr>,
      \<lparr>chooser_index = 4, out_col = - 1, move_in_year_col = 0, chooser_cols = ()\<rparr>],
          buildings_after = [\<lparr>location_index = 1, supply_col = 2, vacant_col = 2, price_col = 0, submarket_col = 0, location_cols = ()\<rparr>]\<rparr>
   \<and> take 2 (filter (\<lambda>c. out_col c = - 1) [\<lparr>chooser_index = 1, out_col = - 1, move_in_year_col = 0, chooser_cols = ()\<rparr>,
      \<lparr>chooser_index = 2, out_col = - 1, move_in_year_col = 0, chooser_cols = ()\<rparr>,
      \<lparr>chooser_index = 3, out_col = - 1, move_in_year_col = 0, chooser_cols = ()\<rparr>,
      \<lparr>chooser_index = 4, out_col = - 1, move_in_year_col = 0, chooser_cols = ()\<rparr>]) = [\<lparr>chooser_index = 1, out_col = - 1, move_in_year_col = 0, chooser_cols = ()\<rparr>,
             \<lparr>chooser_index = 2, out_col = - 1, move_in_year_col = 0, chooser_cols = ()\<rparr>]"
proof -
  let ?res = "\<lparr>overfull_reported = 0, missing_reported = 0, movers_reported = 4,
          choice_movers = [\<lparr>chooser_index = 1, out_col = - 1, move_in_year_col = 0, chooser_cols = ()\<rparr>,
             \<lparr>chooser_index = 2, out_col = - 1, move_in_year_col = 0, chooser_cols = ()\<rparr>],
          choice_units = [\<lparr>location_index = 1, supply_col = 2, vacant_col = 2, price_col = 0, submarket_col = 0, location_cols = ()\<rparr>,
             \<lparr>location_index = 1, supply_col = 2, vacant_col = 2, price_col = 0, submarket_col = 0, location_cols = ()\<rparr>],
          price_hedonic = None, adjusted_prices = None,
          choosers_after = [\<lparr>chooser_index = 1, out_col = - 1, move_in_year_col = 0, chooser_cols = ()\<rparr>,
      \<lparr>chooser_index = 2, out_col = - 1, move_in_year_col = 0, chooser_cols = ()\<rparr>,
      \<lparr>chooser_index = 3, out_col = - 1, move_in_year_col = 0, chooser_cols = ()\<rparr>,
      \<lparr>chooser_index = 4, out_col = - 1, move_in_year_col = 0, chooser_cols = ()\<rparr>],
          buildings_after = [\<lparr>location_index = 1, supply_col = 2, vacant_col = 2, price_col = 0, submarket_col = 0, location_cols = ()\<rparr>]\<rparr>"
  have ok: "lcm_simulate (\<lambda>movers units. Map.empty) (\<lambda>movers units. [])
     [\<lparr>chooser_index = 1, out_col = - 1, move_in_year_col = 0, chooser_cols = ()\<rparr>,
      \<lparr>chooser_index = 2, out_col = - 1, move_in_year_col = 0, chooser_cols = ()\<rparr>,
      \<lparr>chooser_index = 3, out_col = - 1, move_in_year_col = 0, chooser_cols = ()\<rparr>,
      \<lparr>chooser_index = 4, out_col = - 1, move_in_year_col = 0, chooser_cols = ()\<rparr>]
     [\<lparr>location_index = 1, supply_col = 2, vacant_col = 2, price_col = 0, submarket_col = 0, location_cols = ()\<rparr>]
     [\<lparr>location_index = 1, supply_col = 2, vacant_col = 2, price_col = 0, submarket_col = 0, location_cols = ()\<rparr>]
     None None = Inr ?res"
    by (simp add: lcm_eval numeral_eq_Suc)
  have d: "distinct (map location_index [\<lparr>location_index = 1, supply_col = 2, vacant_col = 2, price_col = 0, submarket_col = 0, location_cols = ()\<rparr>])" by simp
  from lcm_simulate_truncates_movers [OF ok d] ok show ?thesis by simp
qed

text \<open>
  The claim as first stated cuts the movers to the number of candidate rows. Here
  building 2 (vacancy 3) is missing from \<open>locations_df\<close>: there are 2 candidate rows and 4
  movers, and all 4 movers are handed to the predictor.
\<close>

theorem truncation_counterexample:
  "lcm_simulate (\<lambda>movers units. Map.empty) (\<lambda>movers units. [])
     [\<lparr>chooser_index = 1, out_col = - 1, move_in_year_col = 0, chooser_cols = ()\<rparr>,
      \<lparr>chooser_index = 2, out_col = - 1, move_in_year_col = 0, chooser_cols = ()\<rparr>,
      \<lparr>chooser_index = 3, out_col = - 1, move_in_year_col = 0, chooser_cols = ()\<rparr>,
      \<lparr>chooser_index = 4, out_col = - 1, move_in_year_col = 0, chooser_cols = ()\<rparr>]
     [\<lparr>location_index = 1, supply_col = 2, vacant_col = 2, price_col = 0, submarket_col = 0, location_cols = ()\<rparr>,
      \<lparr>location_index = 2, supply_col = 3, vacant_col = 3, price_col = 0, submarket_col = 0, location_cols = ()\<rparr>]
     [\<lparr>location_index = 1, supply_col = 2, vacant_col = 2, price_col = 0, submarket_col = 0, location_cols = ()\<rparr>]
     None None
   = Inr \<lparr>overfull_reported = 0, missing_reported = 3, movers_reported = 4,
          choice_movers = [\<lparr>chooser_index = 1, out_col = - 1, move_in_year_col = 0, chooser_cols = ()\<rparr>,
      \<lparr>chooser_index = 2, out_col = - 1, move_in_year_col = 0, chooser_cols = ()\<rparr>,
      \<lparr>chooser_index = 3, out_col = - 1, move_in_year_col = 0, chooser_cols = ()\<rparr>,
      \<lparr>chooser_index = 4, out_col = - 1, move_in_year_col = 0, chooser_cols = ()\<rparr>],
          choice_units = [\<lparr>location_index = 1, supply_col = 2, vacant_col = 2, price_col = 0, submarket_col = 0, location_cols = ()\<rparr>,
             \<lparr>location_index = 1, supply_col = 2, vacant_col = 2, price_col = 0, submarket_col = 0, location_cols = ()\<rparr>],
          price_hedonic = None, adjusted_prices = None,
          choosers_after = [\<lparr>chooser_index = 1, out_col = - 1, move_in_year_col = 0, chooser_cols = ()\<rparr>,
      \<lparr>chooser_index = 2, out_col = - 1, move_in_year_col = 0, chooser_cols = ()\<rparr>,
      \<lparr>chooser_index = 3, out_col = - 1, move_in_year_col = 0, chooser_cols = ()\<rparr>,
      \<lparr>chooser_index = 4, out_col = - 1, move_in_year_col = 0, chooser_cols = ()\<rparr>],
          buildings_after =
            [\<lparr>location_index = 1, supply_col = 2, vacant_col = 2, price_col = 0, submarket_col = 0, location_cols = ()\<rparr>,
             \<lparr>location_index = 2, supply_col = 3, vacant_col = 3, price_col = 0, submarket_col = 0, location_cols = ()\<rparr>]\<rparr>"
  by (simp add: lcm_eval numeral_eq_Suc)

section \<open>Clipping the final price\<close>

text \<open>
  Claim C5 (as amended). In a completed call of \<open>lcm_simulate\<close> with supply correction,
  the price stored for each building is the adjusted (shifted) price clipped to
  \<open>clip_final_price_low\<close> and \<open>clip_final_price_high\<close>, the unshifted prices are kept as the
  hedonic column, and the clip is applied after the choice: the units handed to the
  predictor are rows of \<open>locations_df\<close>, the frame joined before any price was shifted, so
  the choice sees neither the clipped nor the shifted prices. An adjusted price of 150
  with \<open>clip_final_price_high = 120\<close> is stored as 120.
\<close>

theorem lcm_simulate_clips_after_choice:
  assumes ok: "lcm_simulate sd pr choosers buildings locations_df (Some cfg) y = Inr res"
  shows "set (choice_units res) \<subseteq> set locations_df
       \<and> price_hedonic res = Some (map price_col buildings)
       \<and> (\<exists>adjusted. adjusted_prices res = Some adjusted
            \<and> length adjusted = length buildings
            \<and> map price_col (buildings_after res) = map (final_price cfg) adjusted)"
proof -
  have 1: "set (choice_units res) \<subseteq> set locations_df"
    by (auto simp: lcm_simulate_Inr(3) [OF ok] set_candidate_units)
  let ?units = "candidate_units (positive_vacant (vacant_series buildings)) locations_df"
  let ?movers = "filter (\<lambda>c. out_col c = - 1) choosers"
  from ok obtain bs1 hedonic adjusted where
    step: "supply_correction_step cfg (sd ?movers ?units) buildings = Inr (bs1, hedonic, adjusted)"
    and h: "price_hedonic res = Some hedonic"
    and a: "adjusted_prices res = Some adjusted"
    and b: "buildings_after res = clip_final_prices cfg bs1"
    by (auto simp: lcm_simulate_def Let_def split: sum.splits if_splits prod.splits)
  note s = supply_correction_step_Inr [OF step]
  have "map price_col (buildings_after res) = map (final_price cfg) adjusted"
    by (simp only: b price_col_clip_final_prices s(3))
  with 1 h a s(1) s(2) show ?thesis by simp
qed

theorem lcm_simulate_clips_after_choice_witness:
  "lcm_simulate (\<lambda>movers units. [7 \<mapsto> 3 / 2]) (\<lambda>movers units. [])
     ([] :: unit chooser list)
     [\<lparr>location_index = 1, supply_col = 5, vacant_col = 1, price_col = 100, submarket_col = 7, location_cols = ()\<rparr>]
     [\<lparr>location_index = 1, supply_col = 5, vacant_col = 1, price_col = 100, submarket_col = 7, location_cols = ()\<rparr>]
     (Some \<lparr>has_price_col = True, has_submarket_col = True, warm_start = False, submarket_table = None, clip_final_price_low = None, clip_final_price_high = Some 120\<rparr>)
     None
   = Inr \<lparr>overfull_reported = 0, missing_reported = 0, movers_reported = 0,
          choice_movers = [],
          choice_units = [\<lparr>location_index = 1, supply_col = 5, vacant_col = 1, price_col = 100, submarket_col = 7, location_cols = ()\<rparr>],
          price_hedonic = Some [100], adjusted_prices = Some [150],
          choosers_after = [],
          buildings_after = [\<lparr>location_index = 1, supply_col = 5, vacant_col = 1, price_col = 120, submarket_col = 7, location_cols = ()\<rparr>]\<rparr>
   \<and> map (final_price \<lparr>has_price_col = True, has_submarket_col = True, warm_start = False, submarket_table = None, clip_final_price_low = None, clip_final_price_high = Some 120\<rparr>) [150] = [120]"
proof -
  let ?res = "\<lparr>overfull_reported = 0, missing_reported = 0, movers_reported = 0,
          choice_movers = ([] :: unit chooser list),
          choice_units = [\<lparr>location_index = 1, supply_col = 5, vacant_col = 1, price_col = 100, submarket_col = 7, location_cols = ()\<rparr>],
          price_hedonic = Some [100], adjusted_prices = Some [150],
          choosers_after = ([] :: unit chooser list),
          buildings_after = [\<lparr>location_index = 1, supply_col = 5, vacant_col = 1, price_col = 120, submarket_col = 7, location_cols = ()\<rparr>]\<rparr>"
  have ok: "lcm_simulate (\<lambda>movers units. [7 \<mapsto> 3 / 2]) (\<lambda>movers units. [])
     ([] :: unit chooser list)
     [\<lparr>location_index = 1, supply_col = 5, vacant_col = 1, price_col = 100, submarket_col = 7, location_cols = ()\<rparr>]
     [\<lparr>location_index = 1, supply_col = 5, vacant_col = 1, price_col = 100, submarket_col = 7, location_cols = ()\<rparr>]
     (Some \<lparr>has_price_col = True, has_submarket_col = True, warm_start = False, submarket_table = None, clip_final_price_low = None, clip_final_price_high = Some 120\<rparr>)
     None = Inr ?res"
    by (simp add: lcm_eval)
  from lcm_simulate_clips_after_choice [OF ok] ok show ?thesis by simp
qed

text \<open>
  The claim as first stated lets the choice see the equilibrated, unclipped price. Here
  the building's price is 100 and its submarket's ratio 3/2: the adjusted price is 150,
  the stored price 120, and the unit handed to the predictor carries the price 100.
\<close>

theorem choice_price_counterexample:
  "lcm_simulate (\<lambda>movers units. [7 \<mapsto> 3 / 2]) (\<lambda>movers units. [])
     ([] :: unit chooser list)
     [\<lparr>location_index = 1, supply_col = 5, vacant_col = 1, price_col = 100, submarket_col = 7, location_cols = ()\<rparr>]
     [\<lparr>location_index = 1, supply_col = 5, vacant_col = 1, price_col = 100, submarket_col = 7, location_cols = ()\<rparr>]
     (Some \<lparr>has_price_col = True, has_submarket_col = True, warm_start = False, submarket_table = None, clip_final_price_low = None, clip_final_price_high = Some 120\<rparr>)
     None
   = Inr \<lparr>overfull_reported = 0, missing_reported = 0, movers_reported = 0,
          choice_movers = [],
          choice_units = [\<lparr>location_index = 1, supply_col = 5, vacant_col = 1, price_col = 100, submarket_col = 7, location_cols = ()\<rparr>],
          price_hedonic = Some [100], adjusted_prices = Some [150],
          choosers_after = [],
          buildings_after = [\<lparr>location_index = 1, supply_col = 5, vacant_col = 1, price_col = 120, submarket_col = 7, location_cols = ()\<rparr>]\<rparr>"
  by (simp add: lcm_eval)

section \<open>Facts about sampling and updating\<close>

lemma map_of_const_series:
  "map_of (map (\<lambda>i. (i, v)) ids) x = (if x \<in> set ids then Some v else None)"
  by (induction ids) auto

lemma update_out_col_const:
  "update_out_col choosers (map (\<lambda>i. (i, v)) ids) =
     map (\<lambda>c. if chooser_index c \<in> set ids then c\<lparr>out_col := v\<rparr> else c) choosers"
  by (simp add: update_out_col_def map_of_const_series)

lemma perm_length:
  assumes "distinct perm" and "set perm = {0..<n}"
  shows "length perm = n"
  using assms distinct_card [of perm] by simp

lemma random_choice_ids:
  assumes "set perm = {0..<length choosers}"
  shows "map (\<lambda>i. map chooser_index choosers ! i) (take k perm) = relocated_ids perm choosers k"
proof -
  have "\<forall>i \<in> set (take k perm). i < length choosers"
    using assms by (auto dest: in_set_takeD)
  then show ?thesis by (simp add: relocated_ids_def)
qed

lemma relocated_ids_distinct:
  assumes dp: "distinct perm" and sp: "set perm = {0..<length choosers}"
      and di: "distinct (map chooser_index choosers)"
  shows "distinct (relocated_ids perm choosers k)"
proof -
  have "inj_on (\<lambda>i. chooser_index (choosers ! i)) (set (take k perm))"
  proof (rule inj_onI)
    fix i j
    assume i: "i \<in> set (take k perm)" and j: "j \<in> set (take k perm)"
      and eq: "chooser_index (choosers ! i) = chooser_index (choosers ! j)"
    from i j sp have lt: "i < length choosers" "j < length choosers"
      by (auto dest: in_set_takeD)
    then have "map chooser_index choosers ! i = map chooser_index choosers ! j"
      using eq by simp
    moreover have "i < length (map chooser_index choosers)" "j < length (map chooser_index choosers)"
      using lt by simp_all
    ultimately show "i = j" using di nth_eq_iff_index_eq by blast
  qed
  moreover have "distinct (take k perm)" using dp by simp
  ultimately show ?thesis by (simp add: relocated_ids_def distinct_map)
qed

lemma relocated_ids_subset:
  assumes "set perm = {0..<length choosers}"
  shows "set (relocated_ids perm choosers k) \<subseteq> chooser_index ` set choosers"
proof
  fix x assume "x \<in> set (relocated_ids perm choosers k)"
  then obtain i where "i \<in> set (take k perm)" and x: "x = chooser_index (choosers ! i)"
    by (auto simp: relocated_ids_def)
  then have "i < length choosers" using assms by (auto dest: in_set_takeD)
  then show "x \<in> chooser_index ` set choosers" using x by simp
qed

lemma count_rows_with_ids:
  assumes di: "distinct (map chooser_index choosers)"
      and d: "distinct ids" and sub: "set ids \<subseteq> chooser_index ` set choosers"
  shows "length (filter (\<lambda>c. chooser_index c \<in> set ids) choosers) = length ids"
proof -
  let ?sel = "filter (\<lambda>c. chooser_index c \<in> set ids) choosers"
  have "distinct (map chooser_index ?sel)" using di by (rule distinct_map_filter)
  then have "length ?sel = card (set (map chooser_index ?sel))"
    using distinct_card [of "map chooser_index ?sel"] by simp
  also have "set (map chooser_index ?sel) = set ids" using sub by auto
  also have "card (set ids) = length ids" using d by (rule distinct_card)
  finally show ?thesis .
qed

text \<open>The rounding of a positive float product against the integers.\<close>

lemma pow2_nonpos: "e \<le> 0 \<Longrightarrow> pow2 e = 1 / 2 ^ nat (- e)"
  by (cases "e = 0") (simp_all add: pow2_def)

lemma binade_le_52:
  assumes "0 < x" and "x < 2 ^ 53"
  shows "binade x \<le> 52"
proof (cases "1 \<le> x")
  case True
  have "\<lfloor>x\<rfloor> < 2 ^ 53" using assms(2) by (simp add: floor_less_iff)
  then have "bitlen \<lfloor>x\<rfloor> \<le> 53"
    using bitlen_le_iff_power [of "\<lfloor>x\<rfloor>" 53] by simp
  then show ?thesis using True by (simp add: binade_def)
next
  case False
  then show ?thesis using bitlen_nonneg [of "\<lceil>1 / x\<rceil> - 1"] by (simp add: binade_def)
qed

lemma round_half_even_le: "y \<le> of_int m \<Longrightarrow> round_half_even y \<le> m"
proof -
  assume le: "y \<le> of_int m"
  show ?thesis
  proof (cases "y = of_int m")
    case True
    then show ?thesis by (simp add: round_half_even_def)
  next
    case False
    with le have "y < of_int m" by simp
    then have "\<lfloor>y\<rfloor> < m" by (simp add: floor_less_iff)
    then show ?thesis by (auto simp: round_half_even_def Let_def)
  qed
qed

lemma round_half_even_ge: "of_int m \<le> y \<Longrightarrow> m \<le> round_half_even y"
proof -
  assume "of_int m \<le> y"
  then have "m \<le> \<lfloor>y\<rfloor>" by (simp add: le_floor_iff)
  then show ?thesis by (auto simp: round_half_even_def Let_def)
qed

lemma fl_double_pos_eq:
  assumes "0 < x" and "x < 2 ^ 53"
  shows "\<exists>k. fl_double x = of_int (round_half_even (x * 2 ^ k)) / 2 ^ k"
proof -
  let ?E = "max (binade x - 52) (- 1074)"
  have "?E \<le> 0" using binade_le_52 [OF assms] by simp
  then have u: "double_ulp x = 1 / 2 ^ nat (- ?E)"
    unfolding double_ulp_def by (rule pow2_nonpos)
  have "fl_double x = of_int (round_half_even (x * 2 ^ nat (- ?E))) / 2 ^ nat (- ?E)"
    using assms(1) by (simp add: fl_double_def Let_def u)
  then show ?thesis by blast
qed

lemma fl_double_le_int:
  assumes "0 < x" and "x < 2 ^ 53" and "x \<le> of_int m"
  shows "fl_double x \<le> of_int m"
proof -
  from fl_double_pos_eq [OF assms(1,2)] obtain k
    where fl: "fl_double x = of_int (round_half_even (x * 2 ^ k)) / 2 ^ k" by blast
  have "x * 2 ^ k \<le> of_int (m * 2 ^ k)" using assms(3) by simp
  then have "round_half_even (x * 2 ^ k) \<le> m * 2 ^ k" by (rule round_half_even_le)
  then have "(of_int (round_half_even (x * 2 ^ k)) :: rat) \<le> of_int (m * 2 ^ k)"
    by (simp only: of_int_le_iff)
  then have "(of_int (round_half_even (x * 2 ^ k)) :: rat) / 2 ^ k \<le> of_int m"
    by (simp add: divide_le_eq)
  then show ?thesis by (simp only: fl)
qed

lemma fl_double_ge_int:
  assumes "0 < x" and "x < 2 ^ 53" and "of_int m \<le> x"
  shows "of_int m \<le> fl_double x"
proof -
  from fl_double_pos_eq [OF assms(1,2)] obtain k
    where fl: "fl_double x = of_int (round_half_even (x * 2 ^ k)) / 2 ^ k" by blast
  have "of_int (m * 2 ^ k) \<le> x * 2 ^ k" using assms(3) by simp
  then have "m * 2 ^ k \<le> round_half_even (x * 2 ^ k)" by (rule round_half_even_ge)
  then have "(of_int (m * 2 ^ k) :: rat) \<le> of_int (round_half_even (x * 2 ^ k))"
    by (simp only: of_int_le_iff)
  then have "of_int m \<le> (of_int (round_half_even (x * 2 ^ k)) :: rat) / 2 ^ k"
    by (simp add: le_divide_eq)
  then show ?thesis by (simp only: fl)
qed

text \<open>The float product of a rate in \<open>[0, 1]\<close> and a table length, truncated.\<close>

lemma sample_size_bounds:
  assumes r0: "0 \<le> r" and r1: "r \<le> 1" and small: "N < 2 ^ 53"
  shows "py_int (fl_double (r * of_nat N)) = int (sample_size r N)"
    and "sample_size r N \<le> N"
    and "sample_size r N = nat \<lfloor>r * of_nat N\<rfloor> \<or> sample_size r N = nat \<lfloor>r * of_nat N\<rfloor> + 1"
proof -
  let ?x = "r * of_nat N"
  have x0: "0 \<le> ?x" using r0 by simp
  have "r * of_nat N \<le> 1 * of_nat N" using r1 by (intro mult_right_mono) simp_all
  then have xN: "?x \<le> of_int (int N)" by simp
  have "(of_nat N :: rat) < of_nat (2 ^ 53)" using small by (simp only: of_nat_less_iff)
  then have N53: "(of_nat N :: rat) < 2 ^ 53" by simp
  have x53: "?x < 2 ^ 53" using xN N53 by simp
  have fl: "0 \<le> fl_double ?x \<and> fl_double ?x \<le> of_int (int N)
        \<and> of_int \<lfloor>?x\<rfloor> \<le> fl_double ?x \<and> fl_double ?x \<le> of_int (\<lfloor>?x\<rfloor> + 1)"
  proof (cases "?x = 0")
    case True
    show ?thesis unfolding True by (simp add: fl_double_def)
  next
    case False
    have pos: "0 < ?x"
      by (rule order.not_eq_order_implies_strict [OF not_sym [OF False] x0])
    have lo: "of_int \<lfloor>?x\<rfloor> \<le> fl_double ?x"
      by (rule fl_double_ge_int [OF pos x53]) simp
    have "(0::rat) \<le> of_int \<lfloor>?x\<rfloor>" using x0 by simp
    with lo have "0 \<le> fl_double ?x" by linarith
    moreover have "fl_double ?x \<le> of_int (int N)"
      by (rule fl_double_le_int [OF pos x53 xN])
    moreover have "fl_double ?x \<le> of_int (\<lfloor>?x\<rfloor> + 1)"
      by (rule fl_double_le_int [OF pos x53]) linarith
    ultimately show ?thesis using lo by blast
  qed
  then have pi: "py_int (fl_double ?x) = \<lfloor>fl_double ?x\<rfloor>" by (simp add: py_int_def)
  have f0: "0 \<le> \<lfloor>fl_double ?x\<rfloor>" using fl by simp
  have fN: "\<lfloor>fl_double ?x\<rfloor> \<le> int N"
  proof -
    have "\<lfloor>fl_double ?x\<rfloor> \<le> \<lfloor>(of_int (int N) :: rat)\<rfloor>"
      using fl by (intro floor_mono) simp
    then show ?thesis by simp
  qed
  have flo: "\<lfloor>?x\<rfloor> \<le> \<lfloor>fl_double ?x\<rfloor>" using fl by (simp add: le_floor_iff)
  have fhi: "\<lfloor>fl_double ?x\<rfloor> \<le> \<lfloor>?x\<rfloor> + 1"
  proof -
    have "\<lfloor>fl_double ?x\<rfloor> \<le> \<lfloor>(of_int (\<lfloor>?x\<rfloor> + 1) :: rat)\<rfloor>"
      using fl by (intro floor_mono) simp
    then show ?thesis by simp
  qed
  show "py_int (fl_double ?x) = int (sample_size r N)"
    using f0 by (simp add: sample_size_def pi)
  show "sample_size r N \<le> N" using fN f0 by (simp add: sample_size_def pi)
  have x0': "0 \<le> \<lfloor>?x\<rfloor>" using x0 by simp
  show "sample_size r N = nat \<lfloor>?x\<rfloor> \<or> sample_size r N = nat \<lfloor>?x\<rfloor> + 1"
    unfolding sample_size_def pi using flo fhi x0' f0 by linarith
qed

text \<open>Permutations that begin with a given selection.\<close>

lemma card_distinct_lists_of_set:
  assumes "finite A"
  shows "card {xs. distinct xs \<and> set xs = A} = fact (card A)"
proof -
  have "(distinct xs \<and> set xs = A) = (length xs = card A \<and> distinct xs \<and> set xs \<subseteq> A)"
    for xs :: "'a list"
  proof
    assume "distinct xs \<and> set xs = A"
    then show "length xs = card A \<and> distinct xs \<and> set xs \<subseteq> A"
      using distinct_card [of xs] by auto
  next
    assume h: "length xs = card A \<and> distinct xs \<and> set xs \<subseteq> A"
    then have "card (set xs) = card A" by (simp add: distinct_card)
    with h assms have "set xs = A" by (simp add: card_subset_eq)
    with h show "distinct xs \<and> set xs = A" by simp
  qed
  then have "{xs. distinct xs \<and> set xs = A} =
          {xs. length xs = card A \<and> distinct xs \<and> set xs \<subseteq> A}"
    by simp
  then have "card {xs. distinct xs \<and> set xs = A} =
          card {xs. length xs = card A \<and> distinct xs \<and> set xs \<subseteq> A}"
    by simp
  also have "\<dots> = \<Prod>{card A - card A + 1 .. card A}"
    using assms by (intro card_lists_distinct_length_eq) simp_all
  also have "\<dots> = fact (card A)" by (simp add: fact_prod)
  finally show ?thesis .
qed

lemma card_draws_with_prefix:
  assumes d: "distinct sel" and s: "set sel \<subseteq> {0..<N}"
  shows "card (draws_with_prefix N sel) = fact (N - length sel)"
proof -
  let ?A = "{0..<N} - set sel"
  let ?R = "{rest. distinct rest \<and> set rest = ?A}"
  have "draws_with_prefix N sel = (\<lambda>rest. sel @ rest) ` ?R"
  proof (intro set_eqI iffI)
    fix p assume "p \<in> draws_with_prefix N sel"
    then have dp: "distinct p" and sp: "set p = {0..<N}" and tk: "take (length sel) p = sel"
      by (simp_all add: draws_with_prefix_def)
    have p: "p = sel @ drop (length sel) p"
      using tk append_take_drop_id [of "length sel" p] by simp
    have "distinct (sel @ drop (length sel) p)" using dp p by simp
    then have dr: "distinct (drop (length sel) p)"
      and dj: "set sel \<inter> set (drop (length sel) p) = {}" by simp_all
    have "set sel \<union> set (drop (length sel) p) = {0..<N}"
      using sp p by (metis set_append)
    with dj have "set (drop (length sel) p) = ?A" by auto
    with dr have "drop (length sel) p \<in> ?R" by simp
    with p show "p \<in> (\<lambda>rest. sel @ rest) ` ?R" by blast
  next
    fix p assume "p \<in> (\<lambda>rest. sel @ rest) ` ?R"
    then obtain rest where p: "p = sel @ rest" and dr: "distinct rest" and sr: "set rest = ?A"
      by auto
    have "distinct p" using p d dr sr by auto
    moreover have "set p = {0..<N}" using p sr s by auto
    moreover have "take (length sel) p = sel" using p by simp
    ultimately show "p \<in> draws_with_prefix N sel" by (simp add: draws_with_prefix_def)
  qed
  moreover have "inj_on (\<lambda>rest. sel @ rest) ?R" by (simp add: inj_on_def)
  ultimately have "card (draws_with_prefix N sel) = card ?R" by (simp add: card_image)
  also have "\<dots> = fact (card ?A)" by (rule card_distinct_lists_of_set) simp
  also have "card ?A = N - length sel"
    using s d by (simp add: card_Diff_subset distinct_card)
  finally show ?thesis .
qed

section \<open>Relocation\<close>

text \<open>
  Claim C4 (as amended). For a table of \<open>N\<close> agents with unique ids and a rate
  \<open>0 \<le> r \<le> 1\<close>, \<open>simple_relocation\<close> returns, whatever permutation the generator draws. It
  selects \<open>int(r * N)\<close> pairwise distinct agents, where \<open>r * N\<close> is the float product: this
  number is \<open>floor(r * N)\<close>, or one more when the product rounds up to the next integer.
  The selected agents are those at the first positions of the permutation, drawn from
  all agents whether placed or not; the location field of exactly these rows is set to
  \<open>-1\<close> and every other row is left as it was. Every selection of that many distinct
  agents, in order, begins the same number of the \<open>N!\<close> permutations, so a uniformly
  drawn permutation gives a uniform sample without replacement.
\<close>

theorem simple_relocation_selects:
  assumes r0: "0 \<le> r" and r1: "r \<le> 1"
      and small: "length choosers < 2 ^ 53"
      and dp: "distinct perm" and sp: "set perm = {0..<length choosers}"
      and di: "distinct (map chooser_index choosers)"
  shows "simple_relocation perm choosers r =
           Inr (map (\<lambda>c. if chooser_index c
                             \<in> set (relocated_ids perm choosers (sample_size r (length choosers)))
                          then c\<lparr>out_col := - 1\<rparr> else c) choosers)
       \<and> distinct (relocated_ids perm choosers (sample_size r (length choosers)))
       \<and> length (relocated_ids perm choosers (sample_size r (length choosers))) =
           sample_size r (length choosers)
       \<and> set (relocated_ids perm choosers (sample_size r (length choosers)))
           \<subseteq> chooser_index ` set choosers
       \<and> length (filter (\<lambda>c. chooser_index c
                             \<in> set (relocated_ids perm choosers (sample_size r (length choosers))))
                   choosers) = sample_size r (length choosers)
       \<and> (sample_size r (length choosers) = nat \<lfloor>r * of_nat (length choosers)\<rfloor>
          \<or> sample_size r (length choosers) = nat \<lfloor>r * of_nat (length choosers)\<rfloor> + 1)
       \<and> (\<forall>sel. distinct sel \<and> set sel \<subseteq> {0..<length choosers}
                  \<and> length sel = sample_size r (length choosers) \<longrightarrow>
               card (draws_with_prefix (length choosers) sel) =
                 fact (length choosers - sample_size r (length choosers)))"
proof -
  let ?N = "length choosers"
  let ?k = "sample_size r ?N"
  note b = sample_size_bounds [OF r0 r1 small]
  have "random_choice perm (map chooser_index choosers) (py_int (fl_double (r * of_nat ?N))) =
          Inr (relocated_ids perm choosers ?k)"
    using b(2) by (simp add: random_choice_def b(1) random_choice_ids [OF sp])
  then have 1: "simple_relocation perm choosers r =
           Inr (map (\<lambda>c. if chooser_index c \<in> set (relocated_ids perm choosers ?k)
                          then c\<lparr>out_col := - 1\<rparr> else c) choosers)"
    by (simp add: simple_relocation_def update_out_col_const)
  have 2: "distinct (relocated_ids perm choosers ?k)"
    by (rule relocated_ids_distinct [OF dp sp di])
  have 3: "length (relocated_ids perm choosers ?k) = ?k"
    using b(2) perm_length [OF dp sp] by (simp add: relocated_ids_def)
  have 4: "set (relocated_ids perm choosers ?k) \<subseteq> chooser_index ` set choosers"
    by (rule relocated_ids_subset [OF sp])
  have 5: "length (filter (\<lambda>c. chooser_index c \<in> set (relocated_ids perm choosers ?k)) choosers) = ?k"
    using count_rows_with_ids [OF di 2 4] 3 by simp
  have 6: "\<forall>sel. distinct sel \<and> set sel \<subseteq> {0..<?N} \<and> length sel = ?k \<longrightarrow>
               card (draws_with_prefix ?N sel) = fact (?N - ?k)"
    using card_draws_with_prefix by metis
  from 1 2 3 4 5 6 b(3) show ?thesis by blast
qed

theorem simple_relocation_selects_witness:
  "(0 :: rat) \<le> 1 / 2 \<and> (1 / 2 :: rat) \<le> 1
   \<and> length [\<lparr>chooser_index = 1, out_col = 10, move_in_year_col = 0, chooser_cols = ()\<rparr>,
         \<lparr>chooser_index = 2, out_col = - 1, move_in_year_col = 0, chooser_cols = ()\<rparr>,
         \<lparr>chooser_index = 3, out_col = 11, move_in_year_col = 0, chooser_cols = ()\<rparr>,
         \<lparr>chooser_index = 4, out_col = 12, move_in_year_col = 0, chooser_cols = ()\<rparr>] < 2 ^ 53
   \<and> distinct [1, 3, 0, 2 :: nat]
   \<and> map chooser_index
        [\<lparr>chooser_index = 1, out_col = 10, move_in_year_col = 0, chooser_cols = ()\<rparr>,
         \<lparr>chooser_index = 2, out_col = - 1, move_in_year_col = 0, chooser_cols = ()\<rparr>,
         \<lparr>chooser_index = 3, out_col = 11, move_in_year_col = 0, chooser_cols = ()\<rparr>,
         \<lparr>chooser_index = 4, out_col = 12, move_in_year_col = 0, chooser_cols = ()\<rparr>]
       = [1, 2, 3, 4]
   \<and> sample_size (1 / 2) 4 = 2
   \<and> relocated_ids [1, 3, 0, 2]
        [\<lparr>chooser_index = 1, out_col = 10, move_in_year_col = 0, chooser_cols = ()\<rparr>,
         \<lparr>chooser_index = 2, out_col = - 1, move_in_year_col = 0, chooser_cols = ()\<rparr>,
         \<lparr>chooser_index = 3, out_col = 11, move_in_year_col = 0, chooser_cols = ()\<rparr>,
         \<lparr>chooser_index = 4, out_col = 12, move_in_year_col = 0, chooser_cols = ()\<rparr>] 2
       = [2, 4]
   \<and> simple_relocation [1, 3, 0, 2]
        [\<lparr>chooser_index = 1, out_col = 10, move_in_year_col = 0, chooser_cols = ()\<rparr>,
         \<lparr>chooser_index = 2, out_col = - 1, move_in_year_col = 0, chooser_cols = ()\<rparr>,
         \<lparr>chooser_index = 3, out_col = 11, move_in_year_col = 0, chooser_cols = ()\<rparr>,
         \<lparr>chooser_index = 4, out_col = 12, move_in_year_col = 0, chooser_cols = ()\<rparr>]
        (1 / 2)
       = Inr [\<lparr>chooser_index = 1, out_col = 10, move_in_year_col = 0, chooser_cols = ()\<rparr>,
         \<lparr>chooser_index = 2, out_col = - 1, move_in_year_col = 0, chooser_cols = ()\<rparr>,
         \<lparr>chooser_index = 3, out_col = 11, move_in_year_col = 0, chooser_cols = ()\<rparr>,
         \<lparr>chooser_index = 4, out_col = - 1, move_in_year_col = 0, chooser_cols = ()\<rparr>]
   \<and> card (draws_with_prefix 4 [1, 3]) = 2"
proof -
  let ?cs = "[\<lparr>chooser_index = 1, out_col = 10, move_in_year_col = 0, chooser_cols = ()\<rparr>,
         \<lparr>chooser_index = 2, out_col = - 1, move_in_year_col = 0, chooser_cols = ()\<rparr>,
         \<lparr>chooser_index = 3, out_col = 11, move_in_year_col = 0, chooser_cols = ()\<rparr>,
         \<lparr>chooser_index = 4, out_col = 12, move_in_year_col = 0, chooser_cols = ()\<rparr>]"
  have r0: "(0 :: rat) \<le> 1 / 2" and r1: "(1 / 2 :: rat) \<le> 1" by simp_all
  have small: "length ?cs < 2 ^ 53" by simp
  have dp: "distinct [1, 3, 0, 2 :: nat]" by simp
  have sp: "set [1, 3, 0, 2 :: nat] = {0..<length ?cs}" by auto
  have di: "distinct (map chooser_index ?cs)" by simp
  have len: "length ?cs = 4" by simp
  have k: "sample_size (1 / 2) 4 = 2" by code_simp
  have ids: "relocated_ids [1, 3, 0, 2] ?cs 2 = [2, 4]"
    by (simp add: relocated_ids_def numeral_2_eq_2)
  have sel: "distinct [1, 3 :: nat] \<and> set [1, 3 :: nat] \<subseteq> {0..<4}
               \<and> length [1, 3 :: nat] = 2" by simp
  from simple_relocation_selects [OF r0 r1 small dp sp di]
  have "simple_relocation [1, 3, 0, 2] ?cs (1 / 2) =
          Inr (map (\<lambda>c. if chooser_index c \<in> set [2, 4] then c\<lparr>out_col := - 1\<rparr> else c) ?cs)"
    and "\<forall>sel. distinct sel \<and> set sel \<subseteq> {0..<4} \<and> length sel = 2 \<longrightarrow>
            card (draws_with_prefix 4 sel) = fact (4 - 2)"
    unfolding len k ids by blast+
  then have "simple_relocation [1, 3, 0, 2] ?cs (1 / 2) = Inr [\<lparr>chooser_index = 1, out_col = 10, move_in_year_col = 0, chooser_cols = ()\<rparr>,
         \<lparr>chooser_index = 2, out_col = - 1, move_in_year_col = 0, chooser_cols = ()\<rparr>,
         \<lparr>chooser_index = 3, out_col = 11, move_in_year_col = 0, chooser_cols = ()\<rparr>,
         \<lparr>chooser_index = 4, out_col = - 1, move_in_year_col = 0, chooser_cols = ()\<rparr>]"
    and "card (draws_with_prefix 4 [1, 3]) = fact (4 - 2)"
    using sel by simp_all
  then show ?thesis using k ids by (simp add: fact_numeral)
qed

text \<open>
  The claim as first stated has \<open>floor(r * N)\<close> agents selected. For the float \<open>0.6\<close>, whose
  value is 5404319552844595 / 2^53, and 5 agents the exact product is below 3 and its
  floor is 2, while the float product rounds to 3: three agents are unplaced.
\<close>

theorem float_product_counterexample:
  "simple_relocation [0, 1, 2, 3, 4]
        [\<lparr>chooser_index = 1, out_col = 11, move_in_year_col = 0, chooser_cols = ()\<rparr>,
         \<lparr>chooser_index = 2, out_col = 12, move_in_year_col = 0, chooser_cols = ()\<rparr>,
         \<lparr>chooser_index = 3, out_col = 13, move_in_year_col = 0, chooser_cols = ()\<rparr>,
         \<lparr>chooser_index = 4, out_col = 14, move_in_year_col = 0, chooser_cols = ()\<rparr>,
         \<lparr>chooser_index = 5, out_col = 15, move_in_year_col = 0, chooser_cols = ()\<rparr>]
        (5404319552844595 / 9007199254740992)
       = Inr [\<lparr>chooser_index = 1, out_col = - 1, move_in_year_col = 0, chooser_cols = ()\<rparr>,
         \<lparr>chooser_index = 2, out_col = - 1, move_in_year_col = 0, chooser_cols = ()\<rparr>,
         \<lparr>chooser_index = 3, out_col = - 1, move_in_year_col = 0, chooser_cols = ()\<rparr>,
         \<lparr>chooser_index = 4, out_col = 14, move_in_year_col = 0, chooser_cols = ()\<rparr>,
         \<lparr>chooser_index = 5, out_col = 15, move_in_year_col = 0, chooser_cols = ()\<rparr>]
   \<and> \<lfloor>(5404319552844595 / 9007199254740992 :: rat) * 5\<rfloor> = 2
   \<and> fl_double (5404319552844595 / 9007199254740992 * 5) = 3"
proof -
  have fl: "fl_double (5404319552844595 / 9007199254740992 * 5) = 3"
    by code_simp
  have "\<lfloor>(5404319552844595 / 9007199254740992 :: rat) * 5\<rfloor> = 2"
    by code_simp
  moreover have "simple_relocation [0, 1, 2, 3, 4]
        [\<lparr>chooser_index = 1, out_col = 11, move_in_year_col = 0, chooser_cols = ()\<rparr>,
         \<lparr>chooser_index = 2, out_col = 12, move_in_year_col = 0, chooser_cols = ()\<rparr>,
         \<lparr>chooser_index = 3, out_col = 13, move_in_year_col = 0, chooser_cols = ()\<rparr>,
         \<lparr>chooser_index = 4, out_col = 14, move_in_year_col = 0, chooser_cols = ()\<rparr>,
         \<lparr>chooser_index = 5, out_col = 15, move_in_year_col = 0, chooser_cols = ()\<rparr>]
        (5404319552844595 / 9007199254740992)
       = Inr [\<lparr>chooser_index = 1, out_col = - 1, move_in_year_col = 0, chooser_cols = ()\<rparr>,
         \<lparr>chooser_index = 2, out_col = - 1, move_in_year_col = 0, chooser_cols = ()\<rparr>,
         \<lparr>chooser_index = 3, out_col = - 1, move_in_year_col = 0, chooser_cols = ()\<rparr>,
         \<lparr>chooser_index = 4, out_col = 14, move_in_year_col = 0, chooser_cols = ()\<rparr>,
         \<lparr>chooser_index = 5, out_col = 15, move_in_year_col = 0, chooser_cols = ()\<rparr>]"
    using fl
    by (simp add: simple_relocation_def random_choice_def py_int_def update_out_col_def
          numeral_3_eq_3)
  ultimately show ?thesis using fl by simp
qed

section \<open>Transition settings\<close>




section \<open>Missing values after a join\<close>

text \<open>The flag, the counts and the check, column by column.\<close>

lemma check_columns_eq:
  "check_columns n df cols fail = (fail \<or> (\<exists>col \<in> set cols. n \<noteq> count_col df col))"
  by (induction cols arbitrary: fail) (auto simp: Let_def)

lemma count_col_replace_inf:
  "count_col (replace_inf_frame df) col =
     length (filter (\<lambda>(i, r). \<not> missing_or_inf (r col)) (frame_rows df))"
proof -
  have "length (filter (\<lambda>(i, r). r col \<noteq> NaN)
            (map (\<lambda>(i, r). (i, \<lambda>col. replace_inf (r col))) rs)) =
        length (filter (\<lambda>(i, r). \<not> missing_or_inf (r col)) rs)"
    for rs :: "(int \<times> (string \<Rightarrow> cell)) list"
    by (induction rs) (auto simp: replace_inf_def missing_or_inf_def)
  then show ?thesis by (simp add: count_col_def replace_inf_frame_def)
qed

lemma length_filter_neq:
  "(length xs \<noteq> length (filter P xs)) = (\<exists>x \<in> set xs. \<not> P x)"
proof -
  have "length (filter P xs) = length xs \<longleftrightarrow> (\<forall>x \<in> set xs. P x)"
    by (metis filter_id_conv length_filter_less less_irrefl_nat)
  then show ?thesis by auto
qed

lemma check_nas_eq:
  "check_nas df =
     (if \<exists>col \<in> set (frame_columns df). \<exists>(i, r) \<in> set (frame_rows df). missing_or_inf (r col)
      then Inl AssertionError else Inr ())"
proof -
  have "frame_columns (replace_inf_frame df) = frame_columns df"
    by (simp add: replace_inf_frame_def)
  then show ?thesis
    by (auto simp: check_nas_def Let_def check_columns_eq count_col_replace_inf length_filter_neq)
qed

text \<open>
  Claim C8. \<open>to_frame\<close> checks the frame it has joined: it raises (the failed assertion of
  \<open>check_nas\<close>) if and only if some column of the frame holds a missing or infinite value
  in some row, and otherwise returns that very frame, with no row or value dropped.
\<close>

theorem to_frame_checks_nas:
  "to_frame (Inl e) = Inl e
   \<and> to_frame (Inr df) =
       (if \<exists>col \<in> set (frame_columns df). \<exists>(i, r) \<in> set (frame_rows df). missing_or_inf (r col)
        then Inl AssertionError else Inr df)"
  by (simp add: to_frame_def check_nas_eq)

theorem to_frame_checks_nas_witness:
  "to_frame (Inr \<lparr>frame_columns = [''price'', ''sqft''],
                  frame_rows = [(1, (\<lambda>c. Number 0)(''price'' := Number 100)),
                                (2, (\<lambda>c. Number 0)(''price'' := PosInf))]\<rparr>)
     = Inl AssertionError
   \<and> to_frame (Inr \<lparr>frame_columns = [''price'', ''sqft''],
                  frame_rows = [(1, (\<lambda>c. Number 0)(''price'' := Number 100))]\<rparr>)
     = Inr \<lparr>frame_columns = [''price'', ''sqft''],
            frame_rows = [(1, (\<lambda>c. Number 0)(''price'' := Number 100))]\<rparr>"
proof -
  let ?bad = "\<lparr>frame_columns = [''price'', ''sqft''],
                  frame_rows = [(1, (\<lambda>c. Number 0)(''price'' := Number 100)),
                                (2, (\<lambda>c. Number 0)(''price'' := PosInf))]\<rparr>"
  let ?good = "\<lparr>frame_columns = [''price'', ''sqft''],
                  frame_rows = [(1, (\<lambda>c. Number 0)(''price'' := Number 100))]\<rparr>"
  from to_frame_checks_nas [of ValueError ?bad] to_frame_checks_nas [of ValueError ?good]
  show ?thesis by (simp add: missing_or_inf_def)
qed

section \<open>The developer's target\<close>

text \<open>
  Claim C9. In \<open>run_developer\<close> the target is \<open>num_units_to_build or compute(...)\<close>: for
  \<open>num_units_to_build = 0\<close>, as for \<open>None\<close>, the target is the one computed from the number
  of agents, the current supply and the target vacancy; only a nonzero value overrides
  the computation.
\<close>

theorem run_developer_zero_falls_back:
  "run_developer_target_units (Some 0) compute len_agents supply_sum target_vacancy =
     compute len_agents supply_sum target_vacancy
   \<and> run_developer_target_units None compute len_agents supply_sum target_vacancy =
       compute len_agents supply_sum target_vacancy
   \<and> (n \<noteq> 0 \<longrightarrow>
        run_developer_target_units (Some n) compute len_agents supply_sum target_vacancy = Inr n)"
  by (simp add: run_developer_target_units_def)

theorem run_developer_zero_falls_back_witness:
  "run_developer_target_units (Some 0) (\<lambda>a s v. Inr 211) 1000 900 (1 / 10) = Inr 211
   \<and> run_developer_target_units None (\<lambda>a s v. Inr 211) 1000 900 (1 / 10) = Inr 211
   \<and> (50 :: int) \<noteq> 0
   \<and> run_developer_target_units (Some 50) (\<lambda>a s v. Inr 211) 1000 900 (1 / 10) = Inr 50"
  using run_developer_zero_falls_back [of "\<lambda>a s v. Inr 211" 1000 900 "1 / 10" 50]
  by simp

end
